theory Spec2Isabelle
  imports Main
begin

section \<open>Lowering of unranked HLO operations: the emitted code and what it computes\<close>

text \<open>
  The three rewrite patterns of \<^verbatim>\<open>transform_unranked_hlo.cc\<close> are embedded as functions
  from the matched operation to the value that replaces its result.  A value is identified
  with the operation that defines it, so the replacement is the use-def tree of the emitted
  operations; the regions of an \<^verbatim>\<open>scf.if\<close> are kept as regions, with the
  \<^verbatim>\<open>assert\<close> of the last ladder branch in its place before the yield.
\<close>

subsection \<open>Types, values and operations of the intermediate representation\<close>

datatype ty =
    RankedTensorType "int list" ty
  | UnrankedTensorType ty
  | IndexType
  | IntegerType nat
  | FloatType nat
  | OtherType string

definition kDynamicSize :: int where
  "kDynamicSize = -1"

fun isa_RankedTensorType :: "ty \<Rightarrow> bool" where
  "isa_RankedTensorType (RankedTensorType _ _) = True"
| "isa_RankedTensorType _ = False"

fun isa_UnrankedTensorType :: "ty \<Rightarrow> bool" where
  "isa_UnrankedTensorType (UnrankedTensorType _) = True"
| "isa_UnrankedTensorType _ = False"

fun isa_TensorType :: "ty \<Rightarrow> bool" where
  "isa_TensorType (RankedTensorType _ _) = True"
| "isa_TensorType (UnrankedTensorType _) = True"
| "isa_TensorType _ = False"

text \<open>\<^verbatim>\<open>getShape()\<close> of a ranked tensor type; the source calls it only after the
  \<^verbatim>\<open>dyn_cast<RankedTensorType>\<close> has succeeded.\<close>

fun getShape :: "ty \<Rightarrow> int list" where
  "getShape (RankedTensorType dims _) = dims"
| "getShape _ = []"

text \<open>\<^verbatim>\<open>getElementType()\<close>.  The source applies it to tensor types only (after a cast
  that aborts otherwise); on the remaining types this function returns its argument.\<close>

fun getElementType :: "ty \<Rightarrow> ty" where
  "getElementType (RankedTensorType _ e) = e"
| "getElementType (UnrankedTensorType e) = e"
| "getElementType t = t"

type_synonym attrs = "(string \<times> string) list"

datatype CmpIPredicate = pred_eq | pred_uge | pred_sgt

text \<open>
  One constructor for each kind of operation the patterns create.  \<open>Arg i t\<close> is a value
  defined outside the rewritten operation (such as a function argument), its position in the
  run-time environment and its type.  The result types of the shape-, index- and
  boolean-valued operations are fixed by the operation and are not recorded.
  \<open>CreateOp\<close> is \<^verbatim>\<open>create<OpTy>(loc, type, operands, attributes)\<close> for the pattern's own
  operation type, \<open>AdaptorCreateOp\<close> is \<^verbatim>\<open>Adaptor::CreateOp(op, type, operands, builder)\<close>,
  which receives the matched operation (here its name and attributes) and builds the
  \<^verbatim>\<open>HloOpTy\<close> counterpart.
\<close>

datatype val =
    Arg nat ty
  | ShapeOfOp val
  | AnyOp "val list"
  | NumElementsOp val
  | FromElementsOp val
  | DynamicReshapeOp ty val val
  | CreateOp string ty "val list" attrs
  | AdaptorCreateOp string string attrs ty "val list"
  | ConstantIndexOp int
  | AddIOp val val
  | SelectOp val val val
  | CmpIOp CmpIPredicate val val
  | ShapeEqOp val val
  | AndOp val val
  | BroadcastOp "val list"
  | ConstShapeOp "int list"
  | CastOp ty val
  | MinimumBroadcastShapesOp "val list" nat
  | RankOp val
  | IfOp ty val region region
and region =
    YieldOp val
  | AssertOp val string region

fun getType :: "val \<Rightarrow> ty" where
  "getType (Arg _ t) = t"
| "getType (DynamicReshapeOp t _ _) = t"
| "getType (CreateOp _ t _ _) = t"
| "getType (AdaptorCreateOp _ _ _ t _) = t"
| "getType (CastOp t _) = t"
| "getType (IfOp t _ _ _) = t"
| "getType (SelectOp _ a _) = getType a"
| "getType (NumElementsOp _) = IndexType"
| "getType (ConstantIndexOp _) = IndexType"
| "getType (AddIOp _ _) = IndexType"
| "getType (RankOp _) = IndexType"
| "getType (CmpIOp _ _ _) = IntegerType 1"
| "getType (ShapeEqOp _ _) = IntegerType 1"
| "getType (AndOp _ _) = IntegerType 1"
| "getType (FromElementsOp _) = RankedTensorType [1] IndexType"
| "getType (ConstShapeOp dims) = RankedTensorType [int (length dims)] IndexType"
| "getType _ = RankedTensorType [kDynamicSize] IndexType"

text \<open>The matched operation: its name (the \<^verbatim>\<open>OpTy\<close> of the pattern), operands,
  attribute list and result type.\<close>

record operation =
  opName :: string
  getOperands :: "val list"
  getAttrs :: attrs
  getResultType :: ty

text \<open>What \<^verbatim>\<open>matchAndRewrite\<close> returns: \<^verbatim>\<open>failure()\<close>, or \<^verbatim>\<open>success()\<close> with the value
  that replaces the result of the matched operation.  \<open>undefined_behaviour\<close> stands for
  the source reading a vector out of range or using a null value, which the operations
  the patterns are registered for (all of arity two or three) never reach.\<close>

datatype rewrite_result = failure | success val | undefined_behaviour

subsection \<open>The flatten-apply-restore pattern\<close>

definition ElementwiseOpConversion :: "operation \<Rightarrow> rewrite_result" where
  "ElementwiseOpConversion op =
    (if \<not> list_ex (\<lambda>operand. isa_UnrankedTensorType (getType operand)) (getOperands op)
     then failure
     else
       let operandShapes = map ShapeOfOp (getOperands op);
           shape = (if length operandShapes = 1 then hd operandShapes
                    else AnyOp operandShapes);
           numElements = NumElementsOp shape;
           flatShape = FromElementsOp numElements;
           flatOperands =
             map (\<lambda>operand.
                    DynamicReshapeOp
                      (RankedTensorType [kDynamicSize] (getElementType (getType operand)))
                      operand flatShape)
                 (getOperands op);
           flatResultTy =
             RankedTensorType [kDynamicSize] (getElementType (getResultType op));
           flatResult = CreateOp (opName op) flatResultTy flatOperands (getAttrs op)
       in success (DynamicReshapeOp (getResultType op) flatResult shape))"

subsection \<open>The scalar-broadcast pattern\<close>

text \<open>The pattern receives the matched operation and its (already converted) operands;
  the adaptor of a binary operation names them \<open>lhs\<close> and \<open>rhs\<close>.\<close>

definition lhs_is_scalar :: "val \<Rightarrow> val \<Rightarrow> bool" where
  "lhs_is_scalar lhs rhs =
    (isa_RankedTensorType (getType lhs) \<and> getShape (getType lhs) = []
     \<and> isa_UnrankedTensorType (getType rhs))"

definition rhs_is_scalar :: "val \<Rightarrow> val \<Rightarrow> bool" where
  "rhs_is_scalar lhs rhs =
    (isa_RankedTensorType (getType rhs) \<and> getShape (getType rhs) = []
     \<and> isa_UnrankedTensorType (getType lhs))"

fun ConvertUnrankedScalarDynamicBroadcastBinaryOp ::
  "operation \<Rightarrow> val list \<Rightarrow> rewrite_result" where
  "ConvertUnrankedScalarDynamicBroadcastBinaryOp op [lhs, rhs] =
    (if \<not> (lhs_is_scalar lhs rhs \<noteq> rhs_is_scalar lhs rhs) then failure
     else
       let scalar_element_type =
             (if lhs_is_scalar lhs rhs then getElementType (getType lhs)
              else getElementType (getType rhs));
           result_type = getResultType op;
           result_element_type = getElementType result_type;
           shape = ShapeOfOp (if lhs_is_scalar lhs rhs then rhs else lhs);
           num_elements = NumElementsOp shape;
           size_tensor = FromElementsOp num_elements;
           reshaped =
             DynamicReshapeOp (RankedTensorType [kDynamicSize] scalar_element_type)
               (if lhs_is_scalar lhs rhs then rhs else lhs) size_tensor;
           new_operands = [if lhs_is_scalar lhs rhs then lhs else reshaped,
                           if rhs_is_scalar lhs rhs then rhs else reshaped];
           computed =
             CreateOp (opName op) (RankedTensorType [kDynamicSize] result_element_type)
               new_operands (getAttrs op)
       in success (DynamicReshapeOp result_type computed shape))"
| "ConvertUnrankedScalarDynamicBroadcastBinaryOp op _ = undefined_behaviour"

subsection \<open>The n-ary dispatch pattern\<close>

definition IsSingleElementShape :: "val \<Rightarrow> val" where
  "IsSingleElementShape shape_of_tensor =
    CmpIOp pred_eq (NumElementsOp shape_of_tensor) (ConstantIndexOp 1)"

definition extendToBroadcastShape :: "ty \<Rightarrow> val \<Rightarrow> val list \<Rightarrow> val" where
  "extendToBroadcastShape result_type v shapes =
    DynamicReshapeOp result_type v (BroadcastOp shapes)"

definition GreaterRankIsN :: "val \<Rightarrow> nat \<Rightarrow> val" where
  "GreaterRankIsN actual_rank targeted_rank =
    CmpIOp pred_eq actual_rank (ConstantIndexOp (int targeted_rank))"

definition createBroadcastToKnownRank :: "val \<Rightarrow> nat \<Rightarrow> val" where
  "createBroadcastToKnownRank shape targeted_rank =
    (let ranked_shape = replicate targeted_rank (1::int);
         known_rank_extent_tensor_type = RankedTensorType [int targeted_rank] IndexType;
         ranked_shape_val = ConstShapeOp ranked_shape;
         extended_value = BroadcastOp [shape, ranked_shape_val]
     in CastOp known_rank_extent_tensor_type extended_value)"

text \<open>The body of one ladder branch, ending in its yield.\<close>

definition createRankSpecializedBroadcastAndOp ::
  "operation \<Rightarrow> val list \<Rightarrow> val list \<Rightarrow> nat \<Rightarrow> region" where
  "createRankSpecializedBroadcastAndOp op operands operand_shapes targeted_rank =
    (let dynamic_dimensions = replicate targeted_rank kDynamicSize;
         reshaped_operands =
           map (\<lambda>(operand, shape).
                  let extended_operand_casted =
                        createBroadcastToKnownRank shape targeted_rank;
                      reshaped_type =
                        RankedTensorType dynamic_dimensions
                          (getElementType (getType operand))
                  in DynamicReshapeOp reshaped_type operand extended_operand_casted)
               (zip operands operand_shapes);
         result_element_type = getElementType (getResultType op);
         result_type = RankedTensorType dynamic_dimensions result_element_type;
         result = CreateOp (opName op) result_type reshaped_operands (getAttrs op);
         reshaped_result = CastOp (UnrankedTensorType result_element_type) result
     in YieldOp reshaped_result)"

text \<open>\<^verbatim>\<open>std::to_string\<close> on a non-negative number.\<close>

fun to_string :: "nat \<Rightarrow> string" where
  "to_string n =
    (if n < 10 then [char_of (48 + n)]
     else to_string (n div 10) @ [char_of (48 + n mod 10)])"

declare to_string.simps [simp del]

text \<open>The largest rank of the reduced shapes: the loop starts from a null value.\<close>

definition greater_rank_step :: "val option \<Rightarrow> val \<Rightarrow> val option" where
  "greater_rank_step greater_rank shape =
    (let rank = RankOp shape
     in case greater_rank of
          None \<Rightarrow> Some rank
        | Some g \<Rightarrow> Some (SelectOp (CmpIOp pred_sgt g rank) g rank))"

definition kMaxRankSpecialization :: "val list \<Rightarrow> nat" where
  "kMaxRankSpecialization operands = (if length operands > 2 then 8 else 5)"

text \<open>The chain of else-regions built by the loop \<^verbatim>\<open>for (i = 2; i < kMax; i++)\<close> and
  closed by the assertion and the last specialization.\<close>

definition ladder_else ::
  "operation \<Rightarrow> val list \<Rightarrow> val list \<Rightarrow> val \<Rightarrow> nat \<Rightarrow> region" where
  "ladder_else op reshaped_operands reduced_shapes greater_rank kMax =
    foldr (\<lambda>i else_region.
             YieldOp (IfOp (getResultType op) (GreaterRankIsN greater_rank i)
                        (createRankSpecializedBroadcastAndOp op reshaped_operands
                           reduced_shapes i)
                        else_region))
          [2..<kMax]
          (AssertOp (GreaterRankIsN greater_rank kMax)
             (''Input for dynamic binary op lowering was of a rank greater than ''
                @ to_string kMax)
             (createRankSpecializedBroadcastAndOp op reshaped_operands
                reduced_shapes kMax))"

definition HandleBroadcastAndOp :: "operation \<Rightarrow> val list \<Rightarrow> rewrite_result" where
  "HandleBroadcastAndOp op operands =
    (let shapes = map ShapeOfOp operands;
         broadcast_shape = BroadcastOp shapes;
         reduced_shapes = map (MinimumBroadcastShapesOp shapes) [0..<length shapes];
         reshaped_operands =
           map (\<lambda>(operand, reduced_shape).
                  DynamicReshapeOp (getType operand) operand reduced_shape)
               (zip operands reduced_shapes)
     in case foldl greater_rank_step None reduced_shapes of
          None \<Rightarrow> undefined_behaviour
        | Some greater_rank \<Rightarrow>
            let if_op =
                  IfOp (getResultType op) (GreaterRankIsN greater_rank 1)
                    (createRankSpecializedBroadcastAndOp op reshaped_operands
                       reduced_shapes 1)
                    (ladder_else op reshaped_operands reduced_shapes greater_rank
                       (kMaxRankSpecialization operands))
            in success (DynamicReshapeOp (getType if_op) if_op broadcast_shape))"

text \<open>The counter of single-element operand shapes, one select per operand.\<close>

definition counter_step :: "val \<Rightarrow> val \<Rightarrow> val" where
  "counter_step counter shape =
    (let one = ConstantIndexOp 1;
         is_scalar_like = IsSingleElementShape shape;
         counter_plus_one = AddIOp counter one
     in SelectOp is_scalar_like counter_plus_one counter)"

definition ConvertUnrankedDynamicBroadcastNaryOp ::
  "string \<Rightarrow> operation \<Rightarrow> val list \<Rightarrow> rewrite_result" where
  "ConvertUnrankedDynamicBroadcastNaryOp HloOpTy op transformed_operands =
    (let num_operands = length transformed_operands in
     if list_ex (\<lambda>operand. \<not> isa_TensorType (getType operand)) transformed_operands
     then failure
     else if \<not> list_ex (\<lambda>operand. isa_UnrankedTensorType (getType operand))
                 transformed_operands
     then failure
     else if num_operands < 2 then undefined_behaviour
     else
       let operand_element_types =
             map (\<lambda>operand. getElementType (getType operand)) transformed_operands;
           result_type = getResultType op;
           shapes = map ShapeOfOp transformed_operands;
           counter = foldl counter_step (ConstantIndexOp 0) shapes;
           num_operands_minus_one = ConstantIndexOp (int num_operands - 1);
           at_most_one_non_scalar = CmpIOp pred_uge counter num_operands_minus_one;
           reshaped_operands =
             map (\<lambda>i. let num_elements = NumElementsOp (shapes ! i);
                          size_tensor = FromElementsOp num_elements
                      in DynamicReshapeOp
                           (RankedTensorType [kDynamicSize] (operand_element_types ! i))
                           (transformed_operands ! i) size_tensor)
                 [0..<num_operands];
           rank_one_result_type =
             RankedTensorType [kDynamicSize] (getElementType result_type);
           if_at_most_one_non_scalar_result =
             CreateOp (opName op) rank_one_result_type reshaped_operands (getAttrs op);
           extended_result =
             extendToBroadcastShape result_type if_at_most_one_non_scalar_result shapes;
           equal_shapes =
             foldl (\<lambda>equal_shapes i. AndOp equal_shapes (ShapeEqOp (shapes ! 0) (shapes ! i)))
                   (ShapeEqOp (shapes ! 0) (shapes ! 1)) [2..<num_operands];
           non_broadcast_op =
             AdaptorCreateOp HloOpTy (opName op) (getAttrs op) result_type
               transformed_operands
       in case HandleBroadcastAndOp op transformed_operands of
            success ladder \<Rightarrow>
              success
                (IfOp result_type at_most_one_non_scalar
                   (YieldOp extended_result)
                   (YieldOp
                      (IfOp result_type equal_shapes
                         (YieldOp non_broadcast_op)
                         (YieldOp ladder))))
          | r \<Rightarrow> r)"

subsection \<open>Run-time values and the meaning of the emitted operations\<close>

text \<open>
  A tensor at run time is its shape and its elements in row-major order; a reshape keeps
  the element list, so the position of an element in that list is its logical position.
  Extent tensors (shapes), index values and booleans are the other run-time values.
  Index values are operand counts, ranks and element counts of tensors held in memory,
  all far below \<open>2 ^ 63\<close>, and are kept as integers.
\<close>

datatype 'a rtval =
    TensorV "nat list" "'a list"
  | ShapeV "nat list"
  | IndexV int
  | BoolV bool

datatype error =
    AssertionFailure string
  | InvalidReshape
  | IncompatibleShapes
  | IllTyped
  | Unbound

fun the_tensor :: "error + 'a rtval \<Rightarrow> error + (nat list \<times> 'a list)" where
  "the_tensor (Inl e) = Inl e"
| "the_tensor (Inr (TensorV s e)) = Inr (s, e)"
| "the_tensor (Inr _) = Inl IllTyped"

fun the_shape :: "error + 'a rtval \<Rightarrow> error + nat list" where
  "the_shape (Inl e) = Inl e"
| "the_shape (Inr (ShapeV s)) = Inr s"
| "the_shape (Inr _) = Inl IllTyped"

fun the_index :: "error + 'a rtval \<Rightarrow> error + int" where
  "the_index (Inl e) = Inl e"
| "the_index (Inr (IndexV n)) = Inr n"
| "the_index (Inr _) = Inl IllTyped"

fun the_bool :: "error + 'a rtval \<Rightarrow> error + bool" where
  "the_bool (Inl e) = Inl e"
| "the_bool (Inr (BoolV b)) = Inr b"
| "the_bool (Inr _) = Inl IllTyped"

fun err_bind :: "error + 'b \<Rightarrow> ('b \<Rightarrow> error + 'c) \<Rightarrow> error + 'c" where
  "err_bind (Inl e) f = Inl e"
| "err_bind (Inr x) f = f x"

fun collect :: "(error + 'b) list \<Rightarrow> error + 'b list" where
  "collect [] = Inr []"
| "collect (Inl e # rs) = Inl e"
| "collect (Inr x # rs) = err_bind (collect rs) (\<lambda>xs. Inr (x # xs))"

text \<open>Modelled from the spec: \<open>shapeOf\<close>, \<open>numElements\<close> and \<open>shapesEqual\<close> of the shape
  utility layer, which are operations of the shape dialect and not part of the file.\<close>

definition shape_of_sem :: "error + 'a rtval \<Rightarrow> error + 'a rtval" where
  "shape_of_sem r = err_bind (the_tensor r) (\<lambda>t. Inr (ShapeV (fst t)))"

definition num_elements_sem :: "error + 'a rtval \<Rightarrow> error + 'a rtval" where
  "num_elements_sem r = err_bind (the_shape r) (\<lambda>s. Inr (IndexV (int (prod_list s))))"

definition shape_eq_sem :: "error + 'a rtval \<Rightarrow> error + 'a rtval \<Rightarrow> error + 'a rtval" where
  "shape_eq_sem a b =
    err_bind (the_shape a) (\<lambda>s. err_bind (the_shape b) (\<lambda>s'. Inr (BoolV (s = s'))))"

definition rank_sem :: "error + 'a rtval \<Rightarrow> error + 'a rtval" where
  "rank_sem r = err_bind (the_shape r) (\<lambda>s. Inr (IndexV (int (length s))))"

text \<open>\<^verbatim>\<open>shape.any\<close> yields one of its operands, which are meant to agree; its lowering
  substitutes the first one, and so does this function.\<close>

definition any_sem :: "(error + 'a rtval) list \<Rightarrow> error + 'a rtval" where
  "any_sem rs =
    err_bind (collect (map the_shape rs))
      (\<lambda>ss. case ss of [] \<Rightarrow> Inl IllTyped | s # _ \<Rightarrow> Inr (ShapeV s))"

text \<open>Modelled from the spec: \<open>broadcastShape\<close>, the right-aligned combination of two or
  more shapes in which a dimension of size 1 stretches to match, failing at run time if
  the shapes are incompatible.  \<open>broadcast_rev\<close> works on the reversed shapes.\<close>

fun broadcast_rev :: "nat list \<Rightarrow> nat list \<Rightarrow> nat list option" where
  "broadcast_rev [] ys = Some ys"
| "broadcast_rev xs [] = Some xs"
| "broadcast_rev (x # xs) (y # ys) =
    (if x = y \<or> y = 1 then map_option ((#) x) (broadcast_rev xs ys)
     else if x = 1 then map_option ((#) y) (broadcast_rev xs ys)
     else None)"

definition broadcast2 :: "nat list \<Rightarrow> nat list \<Rightarrow> nat list option" where
  "broadcast2 a b = map_option rev (broadcast_rev (rev a) (rev b))"

definition broadcastShape :: "nat list list \<Rightarrow> nat list option" where
  "broadcastShape ss =
    foldl (\<lambda>acc s. case acc of None \<Rightarrow> None | Some a \<Rightarrow> broadcast2 a s) (Some []) ss"

definition broadcast_sem :: "(error + 'a rtval) list \<Rightarrow> error + 'a rtval" where
  "broadcast_sem rs =
    err_bind (collect (map the_shape rs))
      (\<lambda>ss. case broadcastShape ss of
               None \<Rightarrow> Inl IncompatibleShapes
             | Some s \<Rightarrow> Inr (ShapeV s))"

text \<open>\<^verbatim>\<open>tensor.from_elements\<close> of one index value: the extent tensor with that extent.\<close>

definition from_elements_sem :: "error + 'a rtval \<Rightarrow> error + 'a rtval" where
  "from_elements_sem r = err_bind (the_index r) (\<lambda>n. Inr (ShapeV [nat n]))"

text \<open>Modelled from the spec: a reshape keeps the elements and their order and needs the
  element count of the new shape to be that of the operand.\<close>

definition dynamic_reshape_sem ::
  "error + 'a rtval \<Rightarrow> error + 'a rtval \<Rightarrow> error + 'a rtval" where
  "dynamic_reshape_sem operand output_shape =
    err_bind (the_shape output_shape) (\<lambda>s'.
      err_bind (the_tensor operand) (\<lambda>t.
        if prod_list s' = prod_list (fst t) then Inr (TensorV s' (snd t))
        else Inl InvalidReshape))"

text \<open>The indices of a shape in row-major order, and the position in an operand's element
  list that an index of the broadcast result reads: the index is right-aligned with the
  operand's shape and a dimension of size 1 is read at 0.\<close>

definition indices :: "nat list \<Rightarrow> nat list list" where
  "indices s = product_lists (map (\<lambda>d. [0..<d]) s)"

definition offset :: "nat list \<Rightarrow> nat list \<Rightarrow> nat" where
  "offset s idx =
    foldl (\<lambda>acc (d, i). acc * d + (if d = 1 then 0 else i)) 0
      (zip s (drop (length idx - length s) idx))"

text \<open>Modelled from the spec: applying an operation kind to ranked operands is opaque but
  elementwise; \<open>g\<close> is the function on one element of each operand.  A broadcasting
  operation combines operands of different shapes by broadcasting; on operands of one
  common shape this is the application position by position.\<close>

definition apply_broadcasting ::
  "('a list \<Rightarrow> 'a) \<Rightarrow> (nat list \<times> 'a list) list \<Rightarrow> error + 'a rtval" where
  "apply_broadcasting g ts =
    (case broadcastShape (map fst ts) of
       None \<Rightarrow> Inl IncompatibleShapes
     | Some s \<Rightarrow>
         Inr (TensorV s (map (\<lambda>idx. g (map (\<lambda>t. snd t ! offset (fst t) idx) ts)) (indices s))))"

text \<open>Modelled from the spec: direct evaluation of an elementwise operation at the true
  rank of its operands, which all have one shape: position by position.\<close>

definition apply_elementwise ::
  "('a list \<Rightarrow> 'a) \<Rightarrow> (nat list \<times> 'a list) list \<Rightarrow> error + 'a rtval" where
  "apply_elementwise g ts =
    (case ts of
       [] \<Rightarrow> Inl IllTyped
     | (s, e) # rest \<Rightarrow>
         if list_all (\<lambda>t. fst t = s) rest
         then Inr (TensorV s (map (\<lambda>i. g (map (\<lambda>t. snd t ! i) ts)) [0..<prod_list s]))
         else Inl IncompatibleShapes)"

definition create_op_sem ::
  "('a list \<Rightarrow> 'a) \<Rightarrow> (error + 'a rtval) list \<Rightarrow> error + 'a rtval" where
  "create_op_sem g rs = err_bind (collect (map the_tensor rs)) (apply_broadcasting g)"

text \<open>Modelled from the spec: \<^verbatim>\<open>Adaptor::CreateOp\<close> is not part of the file; the
  operation it builds applies the operation directly to the given operands, which all have
  one shape, without broadcasting.\<close>

definition adaptor_create_op_sem ::
  "('a list \<Rightarrow> 'a) \<Rightarrow> (error + 'a rtval) list \<Rightarrow> error + 'a rtval" where
  "adaptor_create_op_sem g rs = err_bind (collect (map the_tensor rs)) (apply_elementwise g)"

definition addi_sem :: "error + 'a rtval \<Rightarrow> error + 'a rtval \<Rightarrow> error + 'a rtval" where
  "addi_sem a b =
    err_bind (the_index a) (\<lambda>x. err_bind (the_index b) (\<lambda>y. Inr (IndexV (x + y))))"

fun cmpi :: "CmpIPredicate \<Rightarrow> int \<Rightarrow> int \<Rightarrow> bool" where
  "cmpi pred_eq x y = (x = y)"
| "cmpi pred_uge x y = (x mod 2 ^ 64 \<ge> y mod 2 ^ 64)"
| "cmpi pred_sgt x y = (x > y)"

definition cmpi_sem ::
  "CmpIPredicate \<Rightarrow> error + 'a rtval \<Rightarrow> error + 'a rtval \<Rightarrow> error + 'a rtval" where
  "cmpi_sem p a b =
    err_bind (the_index a) (\<lambda>x. err_bind (the_index b) (\<lambda>y. Inr (BoolV (cmpi p x y))))"

definition select_sem ::
  "error + 'a rtval \<Rightarrow> error + 'a rtval \<Rightarrow> error + 'a rtval \<Rightarrow> error + 'a rtval" where
  "select_sem c a b =
    err_bind (the_bool c) (\<lambda>t. err_bind a (\<lambda>x. err_bind b (\<lambda>y. Inr (if t then x else y))))"

definition and_sem :: "error + 'a rtval \<Rightarrow> error + 'a rtval \<Rightarrow> error + 'a rtval" where
  "and_sem a b =
    err_bind (the_bool a) (\<lambda>x. err_bind (the_bool b) (\<lambda>y. Inr (BoolV (x \<and> y))))"

text \<open>The result of \<^verbatim>\<open>chlo.minimum_broadcast_shapes\<close> is taken from the parameter
  \<open>mbs\<close>, a function from the operand shapes to their reduced shapes.\<close>

definition minimum_broadcast_shapes_sem ::
  "(nat list list \<Rightarrow> nat list list) \<Rightarrow> (error + 'a rtval) list \<Rightarrow> nat \<Rightarrow> error + 'a rtval" where
  "minimum_broadcast_shapes_sem mbs rs i =
    err_bind (collect (map the_shape rs))
      (\<lambda>ss. if i < length (mbs ss) then Inr (ShapeV (mbs ss ! i)) else Inl IllTyped)"

text \<open>
  Evaluation of a value in an environment \<open>env\<close> that gives the tensors bound to the
  \<open>Arg\<close> values.  \<open>fn name attributes\<close> is the elementwise function of the operation kind
  \<open>name\<close> under the given attributes.  Static result types are annotations and are not
  checked again at run time.  The operations other than the assertion have no effect
  besides failing, so a value is evaluated where it is used; a reshape evaluates its shape
  operand before the tensor.  An \<^verbatim>\<open>scf.if\<close> runs one of its regions; an
  \<^verbatim>\<open>assert\<close> whose condition is false aborts with its message.
\<close>

fun eval ::
  "(string \<Rightarrow> attrs \<Rightarrow> 'a list \<Rightarrow> 'a) \<Rightarrow> (nat list list \<Rightarrow> nat list list) \<Rightarrow>
   'a rtval list \<Rightarrow> val \<Rightarrow> error + 'a rtval"
and eval_region ::
  "(string \<Rightarrow> attrs \<Rightarrow> 'a list \<Rightarrow> 'a) \<Rightarrow> (nat list list \<Rightarrow> nat list list) \<Rightarrow>
   'a rtval list \<Rightarrow> region \<Rightarrow> error + 'a rtval"
where
  "eval fn mbs env (Arg i t) = (if i < length env then Inr (env ! i) else Inl Unbound)"
| "eval fn mbs env (ShapeOfOp v) = shape_of_sem (eval fn mbs env v)"
| "eval fn mbs env (AnyOp vs) = any_sem (map (eval fn mbs env) vs)"
| "eval fn mbs env (NumElementsOp v) = num_elements_sem (eval fn mbs env v)"
| "eval fn mbs env (FromElementsOp v) = from_elements_sem (eval fn mbs env v)"
| "eval fn mbs env (DynamicReshapeOp t v s) =
    dynamic_reshape_sem (eval fn mbs env v) (eval fn mbs env s)"
| "eval fn mbs env (CreateOp name t vs a) =
    create_op_sem (fn name a) (map (eval fn mbs env) vs)"
| "eval fn mbs env (AdaptorCreateOp hlo name a t vs) =
    adaptor_create_op_sem (fn hlo a) (map (eval fn mbs env) vs)"
| "eval fn mbs env (ConstantIndexOp n) = Inr (IndexV n)"
| "eval fn mbs env (AddIOp a b) = addi_sem (eval fn mbs env a) (eval fn mbs env b)"
| "eval fn mbs env (SelectOp c a b) =
    select_sem (eval fn mbs env c) (eval fn mbs env a) (eval fn mbs env b)"
| "eval fn mbs env (CmpIOp p a b) = cmpi_sem p (eval fn mbs env a) (eval fn mbs env b)"
| "eval fn mbs env (ShapeEqOp a b) = shape_eq_sem (eval fn mbs env a) (eval fn mbs env b)"
| "eval fn mbs env (AndOp a b) = and_sem (eval fn mbs env a) (eval fn mbs env b)"
| "eval fn mbs env (BroadcastOp vs) = broadcast_sem (map (eval fn mbs env) vs)"
| "eval fn mbs env (ConstShapeOp dims) = Inr (ShapeV (map nat dims))"
| "eval fn mbs env (CastOp t v) = eval fn mbs env v"
| "eval fn mbs env (MinimumBroadcastShapesOp vs i) =
    minimum_broadcast_shapes_sem mbs (map (eval fn mbs env) vs) i"
| "eval fn mbs env (RankOp v) = rank_sem (eval fn mbs env v)"
| "eval fn mbs env (IfOp t c r1 r2) =
    (case the_bool (eval fn mbs env c) of
       Inl e \<Rightarrow> Inl e
     | Inr b \<Rightarrow> if b then eval_region fn mbs env r1 else eval_region fn mbs env r2)"
| "eval_region fn mbs env (YieldOp v) = eval fn mbs env v"
| "eval_region fn mbs env (AssertOp c msg r) =
    (case the_bool (eval fn mbs env c) of
       Inl e \<Rightarrow> Inl e
     | Inr b \<Rightarrow> if b then eval_region fn mbs env r else Inl (AssertionFailure msg))"

text \<open>The replacement of a successful rewrite, evaluated.\<close>

fun eval_result ::
  "(string \<Rightarrow> attrs \<Rightarrow> 'a list \<Rightarrow> 'a) \<Rightarrow> (nat list list \<Rightarrow> nat list list) \<Rightarrow>
   'a rtval list \<Rightarrow> rewrite_result \<Rightarrow> error + 'a rtval" where
  "eval_result fn mbs env (success v) = eval fn mbs env v"
| "eval_result fn mbs env _ = Inl IllTyped"

subsection \<open>Reading the emitted code\<close>

text \<open>The shape a final reshape restores, the operands of the operation under it, and the
  shape operand of a reshape.\<close>

fun output_shape :: "rewrite_result \<Rightarrow> val option" where
  "output_shape (success (DynamicReshapeOp t v s)) = Some s"
| "output_shape _ = None"

fun flat_operands :: "rewrite_result \<Rightarrow> val list" where
  "flat_operands (success (DynamicReshapeOp t (CreateOp name t' vs a) s)) = vs"
| "flat_operands _ = []"

fun reshape_shape :: "val \<Rightarrow> val option" where
  "reshape_shape (DynamicReshapeOp t v s) = Some s"
| "reshape_shape _ = None"

text \<open>A ranked tensor type of rank 0.\<close>

definition is_scalar_type :: "ty \<Rightarrow> bool" where
  "is_scalar_type t = (isa_RankedTensorType t \<and> getShape t = [])"

text \<open>The branches of a rank ladder in the order in which they are tried, each with its
  guard; the last branch is the one behind the assertion, whose condition is its guard.\<close>

fun ladder_branches :: "region \<Rightarrow> (val \<times> region) list" where
  "ladder_branches (YieldOp (IfOp t c body els)) = (c, body) # ladder_branches els"
| "ladder_branches (AssertOp c msg body) = [(c, body)]"
| "ladder_branches _ = []"

fun ladder_branches_of :: "rewrite_result \<Rightarrow> (val \<times> region) list" where
  "ladder_branches_of (success (DynamicReshapeOp t v s)) = ladder_branches (YieldOp v)"
| "ladder_branches_of _ = []"

text \<open>The greatest rank among shapes, and a shape extended to a rank by leading
  dimensions of size 1.\<close>

definition max_rank :: "nat list list \<Rightarrow> nat" where
  "max_rank ss = foldr (\<lambda>s m. max (length s) m) ss 0"

definition pad_to_rank :: "nat \<Rightarrow> nat list \<Rightarrow> nat list" where
  "pad_to_rank r s = replicate (r - length s) 1 @ s"

text \<open>The values that \<^verbatim>\<open>HandleBroadcastAndOp\<close> binds to \<^verbatim>\<open>reduced_shapes\<close>,
  \<^verbatim>\<open>reshaped_operands\<close> and \<^verbatim>\<open>greater_rank\<close> for a non-empty operand list, and the value
  it returns.\<close>

definition reduced_shapes_of :: "val list \<Rightarrow> val list" where
  "reduced_shapes_of operands =
     map (MinimumBroadcastShapesOp (map ShapeOfOp operands)) [0..<length operands]"

definition reshaped_operands_of :: "val list \<Rightarrow> val list" where
  "reshaped_operands_of operands =
     map (\<lambda>(operand, reduced_shape). DynamicReshapeOp (getType operand) operand reduced_shape)
       (zip operands (reduced_shapes_of operands))"

definition select_greater :: "val \<Rightarrow> val \<Rightarrow> val" where
  "select_greater g shape = SelectOp (CmpIOp pred_sgt g (RankOp shape)) g (RankOp shape)"

definition greater_rank_of :: "val list \<Rightarrow> val" where
  "greater_rank_of operands =
     foldl select_greater (RankOp (MinimumBroadcastShapesOp (map ShapeOfOp operands) 0))
       (map (MinimumBroadcastShapesOp (map ShapeOfOp operands)) [1..<length operands])"

text \<open>The number of shapes with exactly one element.\<close>

definition count_single :: "nat list list \<Rightarrow> nat" where
  "count_single ss = length (filter (\<lambda>s. prod_list s = 1) ss)"

text \<open>The values that the n-ary pattern binds to \<^verbatim>\<open>reshaped_operands[i]\<close>,
  \<^verbatim>\<open>at_most_one_non_scalar\<close>, \<^verbatim>\<open>equal_shapes\<close> and \<^verbatim>\<open>extended_result\<close>.\<close>

definition flatten_operand :: "val \<Rightarrow> val" where
  "flatten_operand operand =
     DynamicReshapeOp (RankedTensorType [kDynamicSize] (getElementType (getType operand)))
       operand (FromElementsOp (NumElementsOp (ShapeOfOp operand)))"

definition at_most_one_non_scalar_of :: "val list \<Rightarrow> val" where
  "at_most_one_non_scalar_of operands =
     CmpIOp pred_uge (foldl counter_step (ConstantIndexOp 0) (map ShapeOfOp operands))
       (ConstantIndexOp (int (length operands) - 1))"

definition equal_shapes_of :: "val list \<Rightarrow> val" where
  "equal_shapes_of operands =
     foldl (\<lambda>equal_shapes i.
              AndOp equal_shapes
                (ShapeEqOp (map ShapeOfOp operands ! 0) (map ShapeOfOp operands ! i)))
       (ShapeEqOp (map ShapeOfOp operands ! 0) (map ShapeOfOp operands ! 1))
       [2..<length operands]"

definition fast_path_A_of :: "operation \<Rightarrow> val list \<Rightarrow> val" where
  "fast_path_A_of op operands =
     DynamicReshapeOp (getResultType op)
       (CreateOp (opName op) (RankedTensorType [kDynamicSize] (getElementType (getResultType op)))
          (map flatten_operand operands) (getAttrs op))
       (BroadcastOp (map ShapeOfOp operands))"

definition ladder_of :: "operation \<Rightarrow> val list \<Rightarrow> val" where
  "ladder_of op operands =
     DynamicReshapeOp (getResultType op)
         (IfOp (getResultType op) (GreaterRankIsN (greater_rank_of operands) 1)
            (createRankSpecializedBroadcastAndOp op (reshaped_operands_of operands)
               (reduced_shapes_of operands) 1)
            (ladder_else op (reshaped_operands_of operands) (reduced_shapes_of operands)
               (greater_rank_of operands) (kMaxRankSpecialization operands)))
         (BroadcastOp (map ShapeOfOp operands))"

text \<open>For every position of the broadcast result of shapes, in row-major order, the
  position at which each operand's element list is read; none if the shapes are not
  compatible.  Two lists of shapes with the same table broadcast in the same way:
  broadcasting operations on operands of either list of shapes read the same elements for
  the same position of the result's element list.\<close>

definition read_positions :: "nat list list \<Rightarrow> nat list list option" where
  "read_positions ss =
     (case broadcastShape ss of
        None \<Rightarrow> None
      | Some s \<Rightarrow> Some (map (\<lambda>idx. map (\<lambda>s'. offset s' idx) ss) (indices s)))"

text \<open>A reversed shape extended at its end by dimensions of size 1.\<close>

definition rpad :: "nat \<Rightarrow> nat list \<Rightarrow> nat list" where
  "rpad r xs = xs @ replicate (r - length xs) (Suc 0)"

text \<open>The number of reshape operations that a value reaches through its operands and
  regions.\<close>

fun reshape_count :: "val \<Rightarrow> nat"
and reshape_count_region :: "region \<Rightarrow> nat" where
  "reshape_count (Arg i t) = 0"
| "reshape_count (ShapeOfOp v) = reshape_count v"
| "reshape_count (AnyOp vs) = sum_list (map reshape_count vs)"
| "reshape_count (NumElementsOp v) = reshape_count v"
| "reshape_count (FromElementsOp v) = reshape_count v"
| "reshape_count (DynamicReshapeOp t v s) = Suc (reshape_count v + reshape_count s)"
| "reshape_count (CreateOp name t vs a) = sum_list (map reshape_count vs)"
| "reshape_count (AdaptorCreateOp hlo name a t vs) = sum_list (map reshape_count vs)"
| "reshape_count (ConstantIndexOp n) = 0"
| "reshape_count (AddIOp a b) = reshape_count a + reshape_count b"
| "reshape_count (SelectOp c a b) = reshape_count c + reshape_count a + reshape_count b"
| "reshape_count (CmpIOp p a b) = reshape_count a + reshape_count b"
| "reshape_count (ShapeEqOp a b) = reshape_count a + reshape_count b"
| "reshape_count (AndOp a b) = reshape_count a + reshape_count b"
| "reshape_count (BroadcastOp vs) = sum_list (map reshape_count vs)"
| "reshape_count (ConstShapeOp dims) = 0"
| "reshape_count (CastOp t v) = reshape_count v"
| "reshape_count (MinimumBroadcastShapesOp vs i) = sum_list (map reshape_count vs)"
| "reshape_count (RankOp v) = reshape_count v"
| "reshape_count (IfOp t c r1 r2) =
     reshape_count c + reshape_count_region r1 + reshape_count_region r2"
| "reshape_count_region (YieldOp v) = reshape_count v"
| "reshape_count_region (AssertOp c msg r) = reshape_count c + reshape_count_region r"

text \<open>Name and attributes of every operation reached from a value that was created as
  \<^verbatim>\<open>create<OpTy>(loc, type, operands, attributes)\<close>, and those already inside given
  operands.\<close>

fun created_ops :: "val \<Rightarrow> (string \<times> attrs) list"
and created_ops_region :: "region \<Rightarrow> (string \<times> attrs) list" where
  "created_ops (Arg i t) = []"
| "created_ops (ShapeOfOp v) = created_ops v"
| "created_ops (AnyOp vs) = concat (map created_ops vs)"
| "created_ops (NumElementsOp v) = created_ops v"
| "created_ops (FromElementsOp v) = created_ops v"
| "created_ops (DynamicReshapeOp t v s) = created_ops v @ created_ops s"
| "created_ops (CreateOp name t vs a) = (name, a) # concat (map created_ops vs)"
| "created_ops (AdaptorCreateOp hlo name a t vs) = concat (map created_ops vs)"
| "created_ops (ConstantIndexOp n) = []"
| "created_ops (AddIOp a b) = created_ops a @ created_ops b"
| "created_ops (SelectOp c a b) = created_ops c @ created_ops a @ created_ops b"
| "created_ops (CmpIOp p a b) = created_ops a @ created_ops b"
| "created_ops (ShapeEqOp a b) = created_ops a @ created_ops b"
| "created_ops (AndOp a b) = created_ops a @ created_ops b"
| "created_ops (BroadcastOp vs) = concat (map created_ops vs)"
| "created_ops (ConstShapeOp dims) = []"
| "created_ops (CastOp t v) = created_ops v"
| "created_ops (MinimumBroadcastShapesOp vs i) = concat (map created_ops vs)"
| "created_ops (RankOp v) = created_ops v"
| "created_ops (IfOp t c r1 r2) =
     created_ops c @ created_ops_region r1 @ created_ops_region r2"
| "created_ops_region (YieldOp v) = created_ops v"
| "created_ops_region (AssertOp c msg r) = created_ops c @ created_ops_region r"

definition operand_ops :: "val list \<Rightarrow> (string \<times> attrs) set" where
  "operand_ops operands = (\<Union>x\<in>set operands. set (created_ops x))"

subsection \<open>Concrete operations and operands\<close>

definition unranked_f32 :: ty where
  "unranked_f32 = UnrankedTensorType (FloatType 32)"

definition scalar_f32 :: ty where
  "scalar_f32 = RankedTensorType [] (FloatType 32)"

text \<open>An elementwise function for the examples: the sum of the operands' elements.\<close>

definition add_fn :: "string \<Rightarrow> attrs \<Rightarrow> int list \<Rightarrow> int" where
  "add_fn name a xs = sum_list xs"

definition mhlo_add :: operation where
  "mhlo_add =
    \<lparr>opName = ''mhlo.add'',
     getOperands = [Arg 0 unranked_f32, Arg 1 unranked_f32],
     getAttrs = [],
     getResultType = unranked_f32\<rparr>"

definition chlo_broadcast_add :: operation where
  "chlo_broadcast_add =
    \<lparr>opName = ''chlo.broadcast_add'',
     getOperands = [Arg 0 unranked_f32, Arg 1 unranked_f32],
     getAttrs = [(''broadcast_dimensions'', ''[]'')],
     getResultType = unranked_f32\<rparr>"

definition binary_operands :: "val list" where
  "binary_operands = [Arg 0 unranked_f32, Arg 1 unranked_f32]"

definition ternary_operands :: "val list" where
  "ternary_operands = [Arg 0 unranked_f32, Arg 1 unranked_f32, Arg 2 unranked_f32]"

section \<open>Properties of the patterns\<close>

subsection \<open>Auxiliary facts\<close>

lemma collect_map_Inr: "collect (map (\<lambda>x. Inr (f x)) xs) = Inr (map f xs)"
  by (induction xs) simp_all

lemma map_through:
  assumes "map f xs = map g ys"
  shows "map (\<lambda>x. h (f x)) xs = map (\<lambda>y. h (g y)) ys"
proof -
  have "map (\<lambda>x. h (f x)) xs = map h (map f xs)" by simp
  also have "\<dots> = map h (map g ys)" by (simp only: assms)
  finally show ?thesis by simp
qed

lemma broadcast_rev_self: "broadcast_rev xs xs = Some xs"
  by (induction xs) simp_all

lemma broadcast2_self: "broadcast2 s s = Some s"
  by (simp add: broadcast2_def broadcast_rev_self)

lemma broadcast2_Nil: "broadcast2 [] s = Some s"
  by (simp add: broadcast2_def)

lemma foldl_broadcast_same:
  "list_all (\<lambda>s. s = S) ss \<Longrightarrow>
   foldl (\<lambda>acc s. case acc of None \<Rightarrow> None | Some a \<Rightarrow> broadcast2 a s) (Some S) ss = Some S"
  by (induction ss) (simp_all add: broadcast2_self)

lemma broadcastShape_same:
  "ss \<noteq> [] \<Longrightarrow> list_all (\<lambda>s. s = S) ss \<Longrightarrow> broadcastShape ss = Some S"
  by (cases ss) (simp_all add: broadcastShape_def broadcast2_Nil foldl_broadcast_same)

lemma indices_1d: "indices [n] = map (\<lambda>i. [i]) [0..<n]"
  by (induction n) (simp_all add: indices_def)

lemma offset_1d: "i < n \<Longrightarrow> offset [n] [i] = i"
  by (simp add: offset_def)

lemma offset_scalar: "offset [] idx = 0"
  by (simp add: offset_def)

lemma apply_broadcasting_flat:
  assumes "ts \<noteq> []"
  shows "apply_broadcasting g (map (\<lambda>t. ([n], snd t)) ts) =
         Inr (TensorV [n] (map (\<lambda>i. g (map (\<lambda>t. snd t ! i) ts)) [0..<n]))"
proof -
  have bs: "broadcastShape (map fst (map (\<lambda>t. ([n], snd t)) ts)) = Some [n]"
    using assms by (intro broadcastShape_same) (simp_all add: list_all_iff)
  have "map (\<lambda>idx. g (map (\<lambda>t. snd t ! offset (fst t) idx) (map (\<lambda>t. ([n], snd t)) ts))) (indices [n])
      = map (\<lambda>i. g (map (\<lambda>t. snd t ! i) ts)) [0..<n]"
    by (simp add: indices_1d comp_def offset_1d)
  then show ?thesis
    unfolding apply_broadcasting_def bs by simp
qed

lemma apply_elementwise_same:
  assumes "ts \<noteq> []" "list_all (\<lambda>t. fst t = S) ts"
  shows "apply_elementwise g ts =
         Inr (TensorV S (map (\<lambda>i. g (map (\<lambda>t. snd t ! i) ts)) [0..<prod_list S]))"
  using assms by (cases ts) (auto simp: apply_elementwise_def)


lemma apply_elementwise_Inr:
  assumes "apply_elementwise g ts = Inr r"
  shows "ts \<noteq> [] \<and> list_all (\<lambda>t. fst t = fst (hd ts)) ts"
  using assms by (cases ts) (auto simp: apply_elementwise_def split: if_splits)

lemma eval_shapes:
  assumes "map (eval fn mbs env) operands = map (\<lambda>t. Inr (TensorV (fst t) (snd t))) ts"
  shows "map (eval fn mbs env) (map ShapeOfOp operands) = map (\<lambda>t. Inr (ShapeV (fst t))) ts"
proof -
  have "map (eval fn mbs env) (map ShapeOfOp operands)
        = map (\<lambda>x. shape_of_sem (eval fn mbs env x)) operands"
    by simp
  also have "\<dots> = map (\<lambda>t. shape_of_sem (Inr (TensorV (fst t) (snd t)))) ts"
    by (rule map_through [OF assms])
  finally show ?thesis by (simp add: shape_of_sem_def)
qed

lemma the_shape_ShapeV: "the_shape \<circ> (\<lambda>t. Inr (ShapeV (f t))) = (\<lambda>t. Inr (f t))"
  by (simp add: fun_eq_iff)

lemma the_tensor_TensorV:
  "the_tensor \<circ> (\<lambda>t. Inr (TensorV (f t) (h t))) = (\<lambda>t. Inr (f t, h t))"
  by (simp add: fun_eq_iff)

lemma any_sem_same:
  assumes "ts \<noteq> []" "list_all (\<lambda>t. fst t = S) ts"
  shows "any_sem (map (\<lambda>t. Inr (ShapeV (fst t))) ts) = Inr (ShapeV S)"
  using assms
  by (cases ts) (simp_all add: any_sem_def the_shape_ShapeV collect_map_Inr)

lemma flat_shape_eval:
  assumes ev: "map (eval fn mbs env) operands = map (\<lambda>t. Inr (TensorV (fst t) (snd t))) ts"
      and ne: "ts \<noteq> []" and same: "list_all (\<lambda>t. fst t = S) ts"
  shows "eval fn mbs env
           (if length (map ShapeOfOp operands) = 1 then hd (map ShapeOfOp operands)
            else AnyOp (map ShapeOfOp operands)) = Inr (ShapeV S)"
proof (cases "length operands = 1")
  case True
  then obtain x where x: "operands = [x]" by (cases operands) auto
  with ev obtain t where t: "ts = [t]" by (cases ts) auto
  from ev x t have "eval fn mbs env x = Inr (TensorV (fst t) (snd t))" by simp
  moreover from same t have "fst t = S" by simp
  ultimately show ?thesis using x by (simp add: shape_of_sem_def)
next
  case False
  then show ?thesis
    by (simp add: eval_shapes [OF ev] any_sem_same [OF ne same] del: map_map)
qed

lemma flatten_tree_eval:
  assumes ev: "map (eval fn mbs env) operands = map (\<lambda>t. Inr (TensorV (fst t) (snd t))) ts"
      and ne: "ts \<noteq> []" and same: "list_all (\<lambda>t. fst t = S) ts"
      and shp: "eval fn mbs env shape = Inr (ShapeV S)"
  shows "eval fn mbs env
           (DynamicReshapeOp T
              (CreateOp name T'
                 (map (\<lambda>operand. DynamicReshapeOp (F operand) operand
                                   (FromElementsOp (NumElementsOp shape))) operands)
                 a)
              shape)
         = Inr (TensorV S (map (\<lambda>i. fn name a (map (\<lambda>t. snd t ! i) ts)) [0..<prod_list S]))"
proof -
  define n where "n = prod_list S"
  have flat: "from_elements_sem (num_elements_sem (eval fn mbs env shape)) = Inr (ShapeV [n])"
    by (simp add: shp num_elements_sem_def from_elements_sem_def n_def)
  have "map (eval fn mbs env)
          (map (\<lambda>operand. DynamicReshapeOp (F operand) operand
                             (FromElementsOp (NumElementsOp shape))) operands)
        = map (\<lambda>x. dynamic_reshape_sem (eval fn mbs env x) (Inr (ShapeV [n]))) operands"
    by (simp only: map_map comp_def eval.simps flat)
  also have "\<dots> = map (\<lambda>t. dynamic_reshape_sem (Inr (TensorV (fst t) (snd t))) (Inr (ShapeV [n]))) ts"
    by (rule map_through [OF ev])
  also have "\<dots> = map (\<lambda>t. Inr (TensorV [n] (snd t))) ts"
    using same by (simp add: dynamic_reshape_sem_def n_def list_all_iff)
  finally have flats: "map (eval fn mbs env)
          (map (\<lambda>operand. DynamicReshapeOp (F operand) operand
                             (FromElementsOp (NumElementsOp shape))) operands)
        = map (\<lambda>t. Inr (TensorV [n] (snd t))) ts" .
  have applied: "create_op_sem (fn name a) (map (\<lambda>t. Inr (TensorV [n] (snd t))) ts)
        = Inr (TensorV [n] (map (\<lambda>i. fn name a (map (\<lambda>t. snd t ! i) ts)) [0..<n]))"
    using apply_broadcasting_flat [OF ne, of "fn name a" n]
    by (simp add: create_op_sem_def the_tensor_TensorV collect_map_Inr)
  show ?thesis
    by (simp only: eval.simps flats applied shp) (simp add: dynamic_reshape_sem_def n_def)
qed

lemma broadcastShape_scalar_left: "broadcastShape [[], s] = Some s"
  by (simp add: broadcastShape_def broadcast2_Nil)

lemma broadcast_rev_Nil_right: "broadcast_rev xs [] = Some xs"
  by (cases xs) simp_all

lemma broadcastShape_scalar_right: "broadcastShape [s, []] = Some s"
  by (simp add: broadcastShape_def broadcast2_Nil) (simp add: broadcast2_def broadcast_rev_Nil_right)

lemma isa_excl: "isa_RankedTensorType t \<Longrightarrow> \<not> isa_UnrankedTensorType t"
  by (cases t) simp_all

lemma map_offset_1d:
  "length e = n \<Longrightarrow> map (\<lambda>i. h (e ! offset [n] [i])) [0..<n] = map h e"
  by (simp add: list_eq_iff_nth_eq offset_1d)

lemma scalar_tree_eval_lhs:
  assumes sc: "eval fn mbs env lhs = Inr (TensorV [] [x])"
      and te: "eval fn mbs env rhs = Inr (TensorV S e)"
      and wf: "length e = prod_list S"
  shows "eval fn mbs env
           (DynamicReshapeOp T
              (CreateOp name T'
                 [lhs, DynamicReshapeOp T'' rhs (FromElementsOp (NumElementsOp (ShapeOfOp rhs)))] a)
              (ShapeOfOp rhs))
         = Inr (TensorV S (map (\<lambda>y. fn name a [x, y]) e))"
proof -
  have ap: "apply_broadcasting (fn name a) [([], [x]), ([prod_list S], e)]
            = Inr (TensorV [prod_list S] (map (\<lambda>y. fn name a [x, y]) e))"
    by (simp add: apply_broadcasting_def broadcastShape_scalar_left indices_1d comp_def
          offset_scalar map_offset_1d [OF wf, of "\<lambda>y. fn name a [x, y]"])
  show ?thesis
    by (simp add: sc te shape_of_sem_def num_elements_sem_def from_elements_sem_def
          dynamic_reshape_sem_def create_op_sem_def ap)
qed

lemma scalar_tree_eval_rhs:
  assumes sc: "eval fn mbs env rhs = Inr (TensorV [] [x])"
      and te: "eval fn mbs env lhs = Inr (TensorV S e)"
      and wf: "length e = prod_list S"
  shows "eval fn mbs env
           (DynamicReshapeOp T
              (CreateOp name T'
                 [DynamicReshapeOp T'' lhs (FromElementsOp (NumElementsOp (ShapeOfOp lhs))), rhs] a)
              (ShapeOfOp lhs))
         = Inr (TensorV S (map (\<lambda>y. fn name a [y, x]) e))"
proof -
  have ap: "apply_broadcasting (fn name a) [([prod_list S], e), ([], [x])]
            = Inr (TensorV [prod_list S] (map (\<lambda>y. fn name a [y, x]) e))"
    by (simp add: apply_broadcasting_def broadcastShape_scalar_right indices_1d comp_def
          offset_scalar map_offset_1d [OF wf, of "\<lambda>y. fn name a [y, x]"])
  show ?thesis
    by (simp add: sc te shape_of_sem_def num_elements_sem_def from_elements_sem_def
          dynamic_reshape_sem_def create_op_sem_def ap)
qed

lemma scalar_excl: "lhs_is_scalar lhs rhs \<Longrightarrow> \<not> rhs_is_scalar lhs rhs"
  by (auto simp: lhs_is_scalar_def rhs_is_scalar_def dest: isa_excl)

lemma foldl_greater_rank_step_Some:
  "foldl greater_rank_step (Some g) xs = Some (foldl select_greater g xs)"
  by (induction xs arbitrary: g) (simp_all add: greater_rank_step_def select_greater_def Let_def)

lemma foldl_greater_rank_step_Cons:
  "foldl greater_rank_step None (x # xs) = Some (foldl select_greater (RankOp x) xs)"
  by (simp add: greater_rank_step_def foldl_greater_rank_step_Some Let_def)

lemma reduced_shapes_of_nonempty:
  "operands \<noteq> [] \<Longrightarrow>
   reduced_shapes_of operands =
     MinimumBroadcastShapesOp (map ShapeOfOp operands) 0
       # map (MinimumBroadcastShapesOp (map ShapeOfOp operands)) [1..<length operands]"
  by (simp add: reduced_shapes_of_def upt_conv_Cons)

lemma HandleBroadcastAndOp_success:
  assumes "operands \<noteq> []"
  shows "HandleBroadcastAndOp op operands =
    success
      (DynamicReshapeOp (getResultType op)
         (IfOp (getResultType op) (GreaterRankIsN (greater_rank_of operands) 1)
            (createRankSpecializedBroadcastAndOp op (reshaped_operands_of operands)
               (reduced_shapes_of operands) 1)
            (ladder_else op (reshaped_operands_of operands) (reduced_shapes_of operands)
               (greater_rank_of operands) (kMaxRankSpecialization operands)))
         (BroadcastOp (map ShapeOfOp operands)))"
proof -
  have "foldl greater_rank_step None (reduced_shapes_of operands)
        = Some (greater_rank_of operands)"
    by (simp only: reduced_shapes_of_nonempty [OF assms] foldl_greater_rank_step_Cons
          greater_rank_of_def)
  then show ?thesis
    by (simp add: HandleBroadcastAndOp_def Let_def reduced_shapes_of_def [symmetric]
          reshaped_operands_of_def [symmetric])
qed

lemma ladder_branches_foldr:
  "ladder_branches
     (foldr (\<lambda>i els. YieldOp (IfOp t (guard i) (body i) els)) ks (AssertOp c msg b))
   = map (\<lambda>i. (guard i, body i)) ks @ [(c, b)]"
  by (induction ks) simp_all

lemma ladder_branches_ladder_else:
  "ladder_branches (ladder_else op xs rs g kMax)
   = map (\<lambda>i. (GreaterRankIsN g i, createRankSpecializedBroadcastAndOp op xs rs i))
       ([2..<kMax] @ [kMax])"
  by (simp add: ladder_else_def ladder_branches_foldr)

lemma eval_GreaterRankIsN:
  "eval fn mbs env g = Inr (IndexV a) \<Longrightarrow>
   eval fn mbs env (GreaterRankIsN g k) = Inr (BoolV (a = int k))"
  by (simp add: GreaterRankIsN_def cmpi_sem_def)

lemma eval_region_ladder_foldr:
  assumes "eval fn mbs env g = Inr (IndexV (int r))"
  shows "eval_region fn mbs env
           (foldr (\<lambda>i els. YieldOp (IfOp t (GreaterRankIsN g i) (body i) els)) ks fin)
         = (if r \<in> set ks then eval_region fn mbs env (body r)
            else eval_region fn mbs env fin)"
  by (induction ks) (auto simp: eval_GreaterRankIsN [OF assms])

lemma eval_region_ladder_else:
  assumes "eval fn mbs env g = Inr (IndexV (int r))"
  shows "eval_region fn mbs env (ladder_else op xs rs g kMax)
         = (if r \<in> set [2..<kMax] \<or> r = kMax
            then eval_region fn mbs env (createRankSpecializedBroadcastAndOp op xs rs r)
            else Inl (AssertionFailure
                   (''Input for dynamic binary op lowering was of a rank greater than ''
                      @ to_string kMax)))"
  unfolding ladder_else_def
  by (simp only: eval_region_ladder_foldr [OF assms])
     (auto simp: eval_GreaterRankIsN [OF assms])

lemma eval_foldl_select_greater:
  assumes "eval fn mbs env g = Inr (IndexV a)"
      and "map (eval fn mbs env) xs = map (\<lambda>s. Inr (ShapeV s)) ss"
  shows "eval fn mbs env (foldl select_greater g xs)
         = Inr (IndexV (foldl max a (map (\<lambda>s. int (length s)) ss)))"
  using assms
proof (induction xs arbitrary: g a ss)
  case Nil
  then show ?case by simp
next
  case (Cons x xs)
  from Cons.prems(2) obtain s rest where ss: "ss = s # rest"
    and x: "eval fn mbs env x = Inr (ShapeV s)"
    and xs: "map (eval fn mbs env) xs = map (\<lambda>s. Inr (ShapeV s)) rest"
    by (cases ss) auto
  have "eval fn mbs env (select_greater g x) = Inr (IndexV (max a (int (length s))))"
    by (simp add: select_greater_def Cons.prems(1) x cmpi_sem_def rank_sem_def
          select_sem_def max_def)
  from Cons.IH [OF this xs] show ?case by (simp add: ss)
qed

lemma foldl_max_rank:
  "0 \<le> a \<Longrightarrow> foldl max a (map (\<lambda>s. int (length s)) ss) = max a (int (max_rank ss))"
  by (induction ss arbitrary: a) (auto simp: max_rank_def)

lemma map_nth_all: "map (\<lambda>i. f (xs ! i)) [0..<length xs] = map f xs"
  by (rule nth_equalityI) simp_all

lemma eval_reduced_shapes:
  assumes ev: "map (eval fn mbs env) operands = map (\<lambda>t. Inr (TensorV (fst t) (snd t))) ts"
      and len: "length (mbs (map fst ts)) = length ts"
  shows "map (eval fn mbs env) (reduced_shapes_of operands)
         = map (\<lambda>s. Inr (ShapeV s)) (mbs (map fst ts))"
proof -
  have n: "length operands = length ts"
    using ev by (metis length_map)
  have one: "\<And>i. i < length ts \<Longrightarrow>
        eval fn mbs env (MinimumBroadcastShapesOp (map ShapeOfOp operands) i)
        = Inr (ShapeV (mbs (map fst ts) ! i))"
    by (simp only: eval.simps eval_shapes [OF ev])
       (simp add: minimum_broadcast_shapes_sem_def the_shape_ShapeV collect_map_Inr len)
  have "map (eval fn mbs env) (reduced_shapes_of operands)
        = map (\<lambda>i. Inr (ShapeV (mbs (map fst ts) ! i)) :: error + 'a rtval)
            [0..<length (mbs (map fst ts))]"
    unfolding reduced_shapes_of_def by (simp add: n len one del: eval.simps)
  also have "\<dots> = map (\<lambda>s. Inr (ShapeV s)) (mbs (map fst ts))"
    by (rule map_nth_all)
  finally show ?thesis .
qed

lemma greater_rank_of_reduced:
  "reduced_shapes_of operands = x # xs \<Longrightarrow>
   greater_rank_of operands = foldl select_greater (RankOp x) xs"
  by (cases "operands = []")
     (simp_all add: reduced_shapes_of_nonempty greater_rank_of_def,
      simp add: reduced_shapes_of_def)

lemma eval_greater_rank:
  assumes ev: "map (eval fn mbs env) operands = map (\<lambda>t. Inr (TensorV (fst t) (snd t))) ts"
      and len: "length (mbs (map fst ts)) = length ts"
      and ne: "operands \<noteq> []"
  shows "eval fn mbs env (greater_rank_of operands)
         = Inr (IndexV (int (max_rank (mbs (map fst ts)))))"
proof -
  from ne obtain x xs where r: "reduced_shapes_of operands = x # xs"
    by (auto simp: reduced_shapes_of_nonempty)
  from eval_reduced_shapes [OF ev len] r
  obtain s rest where m: "mbs (map fst ts) = s # rest"
    and x: "eval fn mbs env x = Inr (ShapeV s)"
    and xs: "map (eval fn mbs env) xs = map (\<lambda>s. Inr (ShapeV s)) rest"
    by (cases "mbs (map fst ts)") auto
  have "eval fn mbs env (RankOp x) = Inr (IndexV (int (length s)))"
    by (simp add: x rank_sem_def)
  from eval_foldl_select_greater [OF this xs]
  show ?thesis
    by (simp add: greater_rank_of_reduced [OF r] m foldl_max_rank) (simp add: max_rank_def)
qed

lemma map_eq_nth:
  "map f xs = map g ys \<Longrightarrow> i < length xs \<Longrightarrow> f (xs ! i) = g (ys ! i)"
  by (metis length_map nth_map)

lemma map_eq_length: "map f xs = map g ys \<Longrightarrow> length xs = length ys"
  by (metis length_map)

lemma broadcast_rev_ones:
  "length xs \<le> r \<Longrightarrow>
   broadcast_rev xs (replicate r (Suc 0)) = Some (xs @ replicate (r - length xs) (Suc 0))"
proof (induction xs arbitrary: r)
  case Nil
  then show ?case by simp
next
  case (Cons x xs)
  then obtain r' where r: "r = Suc r'" by (cases r) auto
  with Cons show ?case by simp
qed

lemma broadcastShape_ones:
  "length s \<le> r \<Longrightarrow> broadcastShape [s, replicate r (Suc 0)] = Some (pad_to_rank r s)"
  by (simp add: broadcastShape_def broadcast2_Nil)
     (simp add: broadcast2_def broadcast_rev_ones pad_to_rank_def)

lemma prod_list_pad_to_rank: "prod_list (pad_to_rank r s) = prod_list s"
  by (simp add: pad_to_rank_def)

lemma eval_createBroadcastToKnownRank:
  assumes "eval fn mbs env shape = Inr (ShapeV s)" and "length s \<le> r"
  shows "eval fn mbs env (createBroadcastToKnownRank shape r) = Inr (ShapeV (pad_to_rank r s))"
  using assms
  by (simp add: createBroadcastToKnownRank_def Let_def broadcast_sem_def
        broadcastShape_ones)

lemma eval_rank_specialized:
  assumes ex: "map (eval fn mbs env) xs
               = map (\<lambda>p. Inr (TensorV (fst p) (snd p))) (zip reds es)"
      and er: "map (eval fn mbs env) rs = map (\<lambda>s. Inr (ShapeV s)) reds"
      and le: "length es = length reds"
      and rk: "list_all (\<lambda>s. length s \<le> r) reds"
  shows "eval_region fn mbs env (createRankSpecializedBroadcastAndOp op xs rs r)
         = apply_broadcasting (fn (opName op) (getAttrs op))
             (map (\<lambda>p. (pad_to_rank r (fst p), snd p)) (zip reds es))"
proof -
  let ?F = "\<lambda>(operand, shape).
              DynamicReshapeOp
                (RankedTensorType (replicate r kDynamicSize) (getElementType (getType operand)))
                operand (createBroadcastToKnownRank shape r)"
  let ?G = "\<lambda>p. Inr (TensorV (pad_to_rank r (fst p)) (snd p)) :: error + 'a rtval"
  have lx: "length xs = length reds"
    using map_eq_length [OF ex] le by simp
  have lr: "length rs = length reds"
    using map_eq_length [OF er] by simp
  have inner: "map (eval fn mbs env) (map ?F (zip xs rs)) = map ?G (zip reds es)"
  proof (rule nth_equalityI)
    show "length (map (eval fn mbs env) (map ?F (zip xs rs))) = length (map ?G (zip reds es))"
      by (simp add: lx lr le)
  next
    fix i
    assume "i < length (map (eval fn mbs env) (map ?F (zip xs rs)))"
    then have i: "i < length reds" by (simp add: lx lr)
    have x: "eval fn mbs env (xs ! i) = Inr (TensorV (reds ! i) (es ! i))"
      using map_eq_nth [OF ex, of i] i by (simp add: lx le)
    have s: "eval fn mbs env (rs ! i) = Inr (ShapeV (reds ! i))"
      using map_eq_nth [OF er, of i] i by (simp add: lr)
    have k: "length (reds ! i) \<le> r"
      using rk i by (simp add: list_all_length)
    show "map (eval fn mbs env) (map ?F (zip xs rs)) ! i = map ?G (zip reds es) ! i"
      using i
      by (simp add: lx lr le x eval_createBroadcastToKnownRank [OF s k]
            dynamic_reshape_sem_def prod_list_pad_to_rank)
  qed
  have "eval_region fn mbs env (createRankSpecializedBroadcastAndOp op xs rs r)
        = create_op_sem (fn (opName op) (getAttrs op)) (map (eval fn mbs env) (map ?F (zip xs rs)))"
    unfolding createRankSpecializedBroadcastAndOp_def Let_def
    by (simp only: eval_region.simps eval.simps)
  also have "\<dots> = create_op_sem (fn (opName op) (getAttrs op)) (map ?G (zip reds es))"
    by (simp only: inner)
  also have "\<dots> = apply_broadcasting (fn (opName op) (getAttrs op))
             (map (\<lambda>p. (pad_to_rank r (fst p), snd p)) (zip reds es))"
    by (simp add: create_op_sem_def comp_def collect_map_Inr)
  finally show ?thesis .
qed

lemma eval_reshaped_operands:
  assumes ev: "map (eval fn mbs env) operands = map (\<lambda>t. Inr (TensorV (fst t) (snd t))) ts"
      and len: "length (mbs (map fst ts)) = length ts"
      and pres: "map prod_list (mbs (map fst ts)) = map (\<lambda>t. prod_list (fst t)) ts"
  shows "map (eval fn mbs env) (reshaped_operands_of operands)
         = map (\<lambda>p. Inr (TensorV (fst p) (snd p))) (zip (mbs (map fst ts)) (map snd ts))"
proof (rule nth_equalityI)
  have n: "length operands = length ts" by (rule map_eq_length [OF ev])
  have lr: "length (reduced_shapes_of operands) = length ts"
    by (simp add: reduced_shapes_of_def n)
  show "length (map (eval fn mbs env) (reshaped_operands_of operands))
        = length (map (\<lambda>p. Inr (TensorV (fst p) (snd p)) :: error + 'a rtval)
                    (zip (mbs (map fst ts)) (map snd ts)))"
    by (simp add: reshaped_operands_of_def n lr len)
  fix i
  assume "i < length (map (eval fn mbs env) (reshaped_operands_of operands))"
  then have i: "i < length ts" by (simp add: reshaped_operands_of_def n lr)
  have x: "eval fn mbs env (operands ! i) = Inr (TensorV (fst (ts ! i)) (snd (ts ! i)))"
    using map_eq_nth [OF ev, of i] i by (simp add: n)
  have s: "eval fn mbs env (reduced_shapes_of operands ! i) = Inr (ShapeV (mbs (map fst ts) ! i))"
    using map_eq_nth [OF eval_reduced_shapes [OF ev len], of i] i by (simp add: lr)
  have p: "prod_list (mbs (map fst ts) ! i) = prod_list (fst (ts ! i))"
    using map_eq_nth [OF pres, of i] i by (simp add: len)
  show "map (eval fn mbs env) (reshaped_operands_of operands) ! i
        = map (\<lambda>p. Inr (TensorV (fst p) (snd p))) (zip (mbs (map fst ts)) (map snd ts)) ! i"
    using i by (simp add: reshaped_operands_of_def n lr len x s p dynamic_reshape_sem_def)
qed

lemma HandleBroadcastAndOp_ladder_of:
  "operands \<noteq> [] \<Longrightarrow> HandleBroadcastAndOp op operands = success (ladder_of op operands)"
  by (simp add: HandleBroadcastAndOp_success ladder_of_def)

lemma flat_operands_by_index:
  "map (\<lambda>i. let num_elements = NumElementsOp (map ShapeOfOp operands ! i);
                 size_tensor = FromElementsOp num_elements
             in DynamicReshapeOp
                  (RankedTensorType [kDynamicSize]
                     (map (\<lambda>operand. getElementType (getType operand)) operands ! i))
                  (operands ! i) size_tensor)
       [0..<length operands]
   = map flatten_operand operands"
  by (rule nth_equalityI) (simp_all add: flatten_operand_def Let_def)

lemma nary_success:
  assumes tens: "\<not> list_ex (\<lambda>operand. \<not> isa_TensorType (getType operand)) operands"
      and unr: "list_ex (\<lambda>operand. isa_UnrankedTensorType (getType operand)) operands"
      and two: "2 \<le> length operands"
  shows "ConvertUnrankedDynamicBroadcastNaryOp hlo op operands =
     success
       (IfOp (getResultType op) (at_most_one_non_scalar_of operands)
          (YieldOp (fast_path_A_of op operands))
          (YieldOp
             (IfOp (getResultType op) (equal_shapes_of operands)
                (YieldOp (AdaptorCreateOp hlo (opName op) (getAttrs op) (getResultType op)
                            operands))
                (YieldOp (ladder_of op operands)))))"
proof -
  from two have ne: "operands \<noteq> []" by auto
  from two have n2: "\<not> length operands < 2" by simp
  show ?thesis
    unfolding ConvertUnrankedDynamicBroadcastNaryOp_def Let_def
    by (simp only: tens unr n2 if_False if_True not_True_eq_False not_not
          HandleBroadcastAndOp_ladder_of [OF ne] rewrite_result.case
          flat_operands_by_index [unfolded Let_def] extendToBroadcastShape_def
          at_most_one_non_scalar_of_def equal_shapes_of_def fast_path_A_of_def)
qed

lemma eval_counter:
  assumes "eval fn mbs env c = Inr (IndexV a)"
      and "map (eval fn mbs env) shapes = map (\<lambda>s. Inr (ShapeV s)) ss"
  shows "eval fn mbs env (foldl counter_step c shapes)
         = Inr (IndexV (a + int (count_single ss)))"
  using assms
proof (induction shapes arbitrary: c a ss)
  case Nil
  then show ?case by (simp add: count_single_def)
next
  case (Cons x xs)
  from Cons.prems(2) obtain s rest where ss: "ss = s # rest"
    and x: "eval fn mbs env x = Inr (ShapeV s)"
    and xs: "map (eval fn mbs env) xs = map (\<lambda>s. Inr (ShapeV s)) rest"
    by (cases ss) auto
  have "eval fn mbs env (counter_step c x)
        = Inr (IndexV (a + (if prod_list s = 1 then 1 else 0)))"
    by (simp add: counter_step_def IsSingleElementShape_def Let_def Cons.prems(1) x
          cmpi_sem_def num_elements_sem_def select_sem_def addi_sem_def)
  from Cons.IH [OF this xs] show ?case by (simp add: ss count_single_def)
qed

lemma count_single_le: "count_single ss \<le> length ss"
  by (simp add: count_single_def)

lemma eval_at_most_one_non_scalar:
  assumes ev: "map (eval fn mbs env) operands = map (\<lambda>t. Inr (TensorV (fst t) (snd t))) ts"
      and two: "2 \<le> length operands"
      and bound: "length operands < 2 ^ 64"
  shows "eval fn mbs env (at_most_one_non_scalar_of operands)
         = Inr (BoolV (length operands - 1 \<le> count_single (map fst ts)))"
proof -
  have n: "length operands = length ts" by (rule map_eq_length [OF ev])
  have sh: "map (eval fn mbs env) (map ShapeOfOp operands)
            = map (\<lambda>s. Inr (ShapeV s)) (map fst ts)"
    by (simp add: eval_shapes [OF ev] del: map_map) (simp add: comp_def)
  have c0: "eval fn mbs env (ConstantIndexOp 0) = Inr (IndexV 0)" by simp
  have cnt: "eval fn mbs env (foldl counter_step (ConstantIndexOp 0) (map ShapeOfOp operands))
             = Inr (IndexV (int (count_single (map fst ts))))"
    using eval_counter [OF c0 sh] by simp
  have le: "count_single (map fst ts) \<le> length operands"
    using count_single_le [of "map fst ts"] by (simp add: n)
  have b: "int (length operands) < 2 ^ 64"
    using bound by (metis of_nat_less_iff of_nat_numeral of_nat_power)
  have m1: "int (count_single (map fst ts)) mod 2 ^ 64 = int (count_single (map fst ts))"
    using le b by (intro mod_pos_pos_trivial) auto
  have m2: "(int (length operands) - 1) mod 2 ^ 64 = int (length operands) - 1"
    using two b by (intro mod_pos_pos_trivial) auto
  have "cmpi pred_uge (int (count_single (map fst ts))) (int (length operands) - 1)
        = (length operands - 1 \<le> count_single (map fst ts))"
    using two by (simp only: cmpi.simps m1 m2) auto
  then show ?thesis
    unfolding at_most_one_non_scalar_of_def
    by (simp only: eval.simps cnt cmpi_sem_def the_index.simps err_bind.simps)
qed

lemma eval_equal_shapes_foldl:
  assumes "eval fn mbs env c = Inr (BoolV b)"
      and "\<forall>i\<in>set ks. eval fn mbs env (ShapeEqOp x (shapes ! i)) = Inr (BoolV (P i))"
  shows "eval fn mbs env (foldl (\<lambda>equal_shapes i. AndOp equal_shapes (ShapeEqOp x (shapes ! i))) c ks)
         = Inr (BoolV (b \<and> (\<forall>i\<in>set ks. P i)))"
  using assms
proof (induction ks arbitrary: c b)
  case Nil
  then show ?case by simp
next
  case (Cons k ks)
  have "eval fn mbs env (AndOp c (ShapeEqOp x (shapes ! k))) = Inr (BoolV (b \<and> P k))"
    using Cons.prems by (simp add: and_sem_def del: eval.simps(13))
  from Cons.IH [OF this] Cons.prems(2) show ?case by auto
qed

lemma eval_equal_shapes:
  assumes ev: "map (eval fn mbs env) operands = map (\<lambda>t. Inr (TensorV (fst t) (snd t))) ts"
      and two: "2 \<le> length operands"
  shows "eval fn mbs env (equal_shapes_of operands)
         = Inr (BoolV (list_all (\<lambda>t. fst t = fst (hd ts)) ts))"
proof -
  have n: "length operands = length ts" by (rule map_eq_length [OF ev])
  have lt: "2 \<le> length ts" using two n by simp
  have one: "eval fn mbs env (operands ! i) = Inr (TensorV (fst (ts ! i)) (snd (ts ! i)))"
    if "i < length ts" for i
    using map_eq_nth [OF ev, of i] that n by simp
  have eq: "eval fn mbs env (ShapeEqOp (map ShapeOfOp operands ! 0) (map ShapeOfOp operands ! i))
        = Inr (BoolV (fst (ts ! 0) = fst (ts ! i)))" if i: "i < length ts" for i
  proof -
    have z: "0 < length ts" using lt by linarith
    have a: "map ShapeOfOp operands ! i = ShapeOfOp (operands ! i)"
      using i n by simp
    have b: "map ShapeOfOp operands ! 0 = ShapeOfOp (operands ! 0)"
      using z n by simp
    show ?thesis
      unfolding a b
      by (simp add: one [OF i] one [OF z] shape_eq_sem_def shape_of_sem_def)
  qed
  have c: "eval fn mbs env (ShapeEqOp (map ShapeOfOp operands ! 0) (map ShapeOfOp operands ! 1))
           = Inr (BoolV (fst (ts ! 0) = fst (ts ! 1)))"
    using lt by (intro eq) simp
  have ks: "\<forall>i\<in>set [2..<length operands].
        eval fn mbs env (ShapeEqOp (map ShapeOfOp operands ! 0) (map ShapeOfOp operands ! i))
        = Inr (BoolV (fst (ts ! 0) = fst (ts ! i)))"
  proof
    fix i assume "i \<in> set [2..<length operands]"
    then have "i < length ts" using n by simp
    then show "eval fn mbs env (ShapeEqOp (map ShapeOfOp operands ! 0) (map ShapeOfOp operands ! i))
        = Inr (BoolV (fst (ts ! 0) = fst (ts ! i)))" by (rule eq)
  qed
  have "eval fn mbs env (equal_shapes_of operands)
        = Inr (BoolV (fst (ts ! 0) = fst (ts ! 1)
                      \<and> (\<forall>i\<in>set [2..<length operands]. fst (ts ! 0) = fst (ts ! i))))"
    unfolding equal_shapes_of_def by (rule eval_equal_shapes_foldl [OF c ks])
  also have "(fst (ts ! 0) = fst (ts ! 1)
                \<and> (\<forall>i\<in>set [2..<length operands]. fst (ts ! 0) = fst (ts ! i)))
             = list_all (\<lambda>t. fst t = fst (hd ts)) ts"
  proof -
    have h: "hd ts = ts ! 0" using lt by (cases ts) simp_all
    have "(\<forall>i<length ts. fst (ts ! i) = fst (ts ! 0))
          \<longleftrightarrow> (fst (ts ! 0) = fst (ts ! 1)
               \<and> (\<forall>i. 2 \<le> i \<and> i < length ts \<longrightarrow> fst (ts ! 0) = fst (ts ! i)))"
    proof
      assume a: "\<forall>i<length ts. fst (ts ! i) = fst (ts ! 0)"
      have "fst (ts ! 0) = fst (ts ! 1)" using a lt by simp
      moreover have "\<forall>i. 2 \<le> i \<and> i < length ts \<longrightarrow> fst (ts ! 0) = fst (ts ! i)"
        using a by simp
      ultimately show "fst (ts ! 0) = fst (ts ! 1)
               \<and> (\<forall>i. 2 \<le> i \<and> i < length ts \<longrightarrow> fst (ts ! 0) = fst (ts ! i))" by blast
    next
      assume a: "fst (ts ! 0) = fst (ts ! 1)
               \<and> (\<forall>i. 2 \<le> i \<and> i < length ts \<longrightarrow> fst (ts ! 0) = fst (ts ! i))"
      show "\<forall>i<length ts. fst (ts ! i) = fst (ts ! 0)"
      proof (intro allI impI)
        fix i assume i: "i < length ts"
        consider "i = 0" | "i = 1" | "2 \<le> i" by linarith
        then show "fst (ts ! i) = fst (ts ! 0)"
        proof cases
          case 1 then show ?thesis by simp
        next
          case 2 then show ?thesis using a by simp
        next
          case 3 then show ?thesis using a i by metis
        qed
      qed
    qed
    moreover have "set [2..<length operands] = {i. 2 \<le> i \<and> i < length ts}"
      using n by auto
    ultimately show ?thesis
      unfolding list_all_length h by (simp only: Ball_def mem_Collect_eq)
  qed
  finally show ?thesis .
qed

lemma eval_adaptor_create_op:
  assumes ev: "map (eval fn mbs env) operands = map (\<lambda>t. Inr (TensorV (fst t) (snd t))) ts"
  shows "eval fn mbs env (AdaptorCreateOp hlo name a t operands)
         = apply_elementwise (fn hlo a) ts"
  by (simp add: ev adaptor_create_op_sem_def comp_def collect_map_Inr)

lemma eval_nary:
  assumes tens: "\<not> list_ex (\<lambda>operand. \<not> isa_TensorType (getType operand)) operands"
      and unr: "list_ex (\<lambda>operand. isa_UnrankedTensorType (getType operand)) operands"
      and two: "2 \<le> length operands"
      and bound: "length operands < 2 ^ 64"
      and ev: "map (eval fn mbs env) operands = map (\<lambda>t. Inr (TensorV (fst t) (snd t))) ts"
  shows "eval_result fn mbs env (ConvertUnrankedDynamicBroadcastNaryOp hlo op operands)
         = (if length operands - 1 \<le> count_single (map fst ts)
            then eval fn mbs env (fast_path_A_of op operands)
            else if list_all (\<lambda>t. fst t = fst (hd ts)) ts
            then apply_elementwise (fn hlo (getAttrs op)) ts
            else eval fn mbs env (ladder_of op operands))"
  by (simp only: nary_success [OF tens unr two] eval_result.simps eval.simps
        eval_region.simps eval_at_most_one_non_scalar [OF ev two bound]
        eval_equal_shapes [OF ev two] eval_adaptor_create_op [OF ev, unfolded eval.simps]
        the_bool.simps sum.case)

lemma kMax_ge: "2 \<le> kMaxRankSpecialization operands"
  by (simp add: kMaxRankSpecialization_def)

lemma max_rank_bound: "list_all (\<lambda>s. length s \<le> max_rank ss) ss"
proof (induction ss)
  case Nil
  then show ?case by simp
next
  case (Cons s ss)
  have "list_all (\<lambda>s'. length s' \<le> max (length s) (max_rank ss)) ss"
    using Cons.IH by (auto simp: list_all_iff)
  then show ?case by (simp add: max_rank_def)
qed

lemma eval_ladder_of:
  assumes ev: "map (eval fn mbs env) operands = map (\<lambda>t. Inr (TensorV (fst t) (snd t))) ts"
      and ne: "operands \<noteq> []"
      and len: "length (mbs (map fst ts)) = length ts"
      and bc: "broadcastShape (map fst ts) = Some S"
  shows "eval fn mbs env (ladder_of op operands)
         = (if 1 \<le> max_rank (mbs (map fst ts))
               \<and> max_rank (mbs (map fst ts)) \<le> kMaxRankSpecialization operands
            then dynamic_reshape_sem
                   (eval_region fn mbs env
                      (createRankSpecializedBroadcastAndOp op (reshaped_operands_of operands)
                         (reduced_shapes_of operands) (max_rank (mbs (map fst ts)))))
                   (Inr (ShapeV S))
            else Inl (AssertionFailure
                   (''Input for dynamic binary op lowering was of a rank greater than ''
                      @ to_string (kMaxRankSpecialization operands))))"
proof -
  define r where "r = max_rank (mbs (map fst ts))"
  define M where "M = kMaxRankSpecialization operands"
  have M2: "2 \<le> M" by (simp add: M_def kMax_ge)
  have g: "eval fn mbs env (greater_rank_of operands) = Inr (IndexV (int r))"
    unfolding r_def by (rule eval_greater_rank [OF ev len ne])
  have b: "eval fn mbs env (BroadcastOp (map ShapeOfOp operands)) = Inr (ShapeV S)"
    by (simp only: eval.simps eval_shapes [OF ev])
       (simp add: broadcast_sem_def the_shape_ShapeV collect_map_Inr comp_def bc)
  have cases: "(r = 1 \<or> r \<in> set [2..<M] \<or> r = M) = (1 \<le> r \<and> r \<le> M)"
    using M2 by auto
  have i: "eval fn mbs env
             (IfOp (getResultType op) (GreaterRankIsN (greater_rank_of operands) 1)
                (createRankSpecializedBroadcastAndOp op (reshaped_operands_of operands)
                   (reduced_shapes_of operands) 1)
                (ladder_else op (reshaped_operands_of operands) (reduced_shapes_of operands)
                   (greater_rank_of operands) M))
           = (if 1 \<le> r \<and> r \<le> M
              then eval_region fn mbs env
                     (createRankSpecializedBroadcastAndOp op (reshaped_operands_of operands)
                        (reduced_shapes_of operands) r)
              else Inl (AssertionFailure
                     (''Input for dynamic binary op lowering was of a rank greater than ''
                        @ to_string M)))"
    using cases
    by (simp only: eval.simps(20) eval_GreaterRankIsN [OF g] eval_region_ladder_else [OF g]
          the_bool.simps sum.case)
       auto
  show ?thesis
    unfolding ladder_of_def r_def [symmetric] M_def [symmetric]
    by (simp only: eval.simps(6) i b) (simp add: dynamic_reshape_sem_def)
qed

lemma ladder_ranks: "2 \<le> M \<Longrightarrow> 1 # [2..<M] @ [M] = [1..<Suc M]"
  by (metis One_nat_def Suc_1 Suc_le_lessD le_SucI upt_conv_Cons upt_Suc_append
        less_Suc_eq_le numeral_2_eq_2)

lemma ladder_branches_of_Handle:
  assumes ne: "operands \<noteq> []"
  shows "ladder_branches_of (HandleBroadcastAndOp op operands)
         = map (\<lambda>k. (GreaterRankIsN (greater_rank_of operands) k,
                      createRankSpecializedBroadcastAndOp op (reshaped_operands_of operands)
                        (reduced_shapes_of operands) k))
             [1..<Suc (kMaxRankSpecialization operands)]"
proof -
  have "ladder_branches_of (HandleBroadcastAndOp op operands)
        = map (\<lambda>k. (GreaterRankIsN (greater_rank_of operands) k,
                      createRankSpecializedBroadcastAndOp op (reshaped_operands_of operands)
                        (reduced_shapes_of operands) k))
            (1 # [2..<kMaxRankSpecialization operands] @ [kMaxRankSpecialization operands])"
    by (simp only: HandleBroadcastAndOp_success [OF ne] ladder_branches_of.simps
          ladder_branches.simps ladder_branches_ladder_else list.map)
  then show ?thesis by (simp only: ladder_ranks [OF kMax_ge])
qed

lemma eval_flatten_operands:
  assumes ev: "map (eval fn mbs env) operands = map (\<lambda>t. Inr (TensorV (fst t) (snd t))) ts"
  shows "map (eval fn mbs env) (map flatten_operand operands)
         = map (\<lambda>t. Inr (TensorV [prod_list (fst t)] (snd t))) ts"
proof -
  have "map (eval fn mbs env) (map flatten_operand operands)
        = map (\<lambda>x. dynamic_reshape_sem (eval fn mbs env x)
                      (from_elements_sem (num_elements_sem (shape_of_sem (eval fn mbs env x)))))
            operands"
    by (simp add: flatten_operand_def)
  also have "\<dots> = map (\<lambda>t. dynamic_reshape_sem (Inr (TensorV (fst t) (snd t)))
                      (from_elements_sem (num_elements_sem (shape_of_sem
                         (Inr (TensorV (fst t) (snd t))))))) ts"
    by (rule map_through [OF ev])
  also have "\<dots> = map (\<lambda>t. Inr (TensorV [prod_list (fst t)] (snd t))) ts"
    by (simp add: dynamic_reshape_sem_def from_elements_sem_def num_elements_sem_def
          shape_of_sem_def)
  finally show ?thesis .
qed

lemma eval_fast_path_A:
  assumes ev: "map (eval fn mbs env) operands = map (\<lambda>t. Inr (TensorV (fst t) (snd t))) ts"
      and bc: "broadcastShape (map fst ts) = Some S"
  shows "eval fn mbs env (fast_path_A_of op operands)
         = dynamic_reshape_sem
             (apply_broadcasting (fn (opName op) (getAttrs op))
                (map (\<lambda>t. ([prod_list (fst t)], snd t)) ts))
             (Inr (ShapeV S))"
proof -
  have b: "eval fn mbs env (BroadcastOp (map ShapeOfOp operands)) = Inr (ShapeV S)"
    by (simp only: eval.simps eval_shapes [OF ev])
       (simp add: broadcast_sem_def the_shape_ShapeV collect_map_Inr comp_def bc)
  have c: "eval fn mbs env
             (CreateOp (opName op) (RankedTensorType [kDynamicSize] (getElementType (getResultType op)))
                (map flatten_operand operands) (getAttrs op))
           = apply_broadcasting (fn (opName op) (getAttrs op))
                (map (\<lambda>t. ([prod_list (fst t)], snd t)) ts)"
    by (simp only: eval.simps eval_flatten_operands [OF ev])
       (simp add: create_op_sem_def comp_def collect_map_Inr)
  show ?thesis
    unfolding fast_path_A_of_def by (simp only: eval.simps(6) b c)
qed

lemma created_counter:
  "set (created_ops (foldl counter_step c shapes))
   \<subseteq> set (created_ops c) \<union> (\<Union>x\<in>set shapes. set (created_ops x))"
proof (induction shapes arbitrary: c)
  case Nil
  then show ?case by simp
next
  case (Cons x xs)
  have "set (created_ops (counter_step c x)) \<subseteq> set (created_ops c) \<union> set (created_ops x)"
    by (auto simp: counter_step_def IsSingleElementShape_def Let_def)
  with Cons.IH [of "counter_step c x"] show ?case by auto
qed

lemma created_shapes:
  "(\<Union>x\<in>set (map ShapeOfOp operands). set (created_ops x)) = operand_ops operands"
  by (simp add: operand_ops_def)

lemma created_at_most_one_non_scalar:
  "set (created_ops (at_most_one_non_scalar_of operands)) \<subseteq> operand_ops operands"
  using created_counter [of "ConstantIndexOp 0" "map ShapeOfOp operands"]
  by (simp add: at_most_one_non_scalar_of_def operand_ops_def)

lemma created_and_foldl:
  "set (created_ops (foldl (\<lambda>e i. AndOp e (ShapeEqOp a (f i))) c ks))
   \<subseteq> set (created_ops c) \<union> set (created_ops a) \<union> (\<Union>i\<in>set ks. set (created_ops (f i)))"
proof (induction ks arbitrary: c)
  case Nil
  then show ?case by simp
next
  case (Cons k ks)
  from Cons.IH [of "AndOp c (ShapeEqOp a (f k))"] show ?case by auto
qed

lemma created_shape_nth:
  "i < length operands \<Longrightarrow>
   set (created_ops (map ShapeOfOp operands ! i)) \<subseteq> operand_ops operands"
  using nth_mem [of i operands] by (fastforce simp: operand_ops_def)

lemma created_equal_shapes:
  assumes two: "2 \<le> length operands"
  shows "set (created_ops (equal_shapes_of operands)) \<subseteq> operand_ops operands"
proof -
  have z: "set (created_ops (map ShapeOfOp operands ! 0)) \<subseteq> operand_ops operands"
    using two by (intro created_shape_nth) linarith
  have o: "set (created_ops (map ShapeOfOp operands ! 1)) \<subseteq> operand_ops operands"
    using two by (intro created_shape_nth) linarith
  have ks: "(\<Union>i\<in>set [2..<length operands]. set (created_ops (map ShapeOfOp operands ! i)))
            \<subseteq> operand_ops operands"
  proof
    fix p
    assume "p \<in> (\<Union>i\<in>set [2..<length operands].
                    set (created_ops (map ShapeOfOp operands ! i)))"
    then obtain i where i: "i < length operands"
      and p: "p \<in> set (created_ops (map ShapeOfOp operands ! i))"
      by (auto simp del: nth_map)
    from created_shape_nth [OF i] p show "p \<in> operand_ops operands" by blast
  qed
  have c: "set (created_ops (ShapeEqOp (map ShapeOfOp operands ! 0) (map ShapeOfOp operands ! 1)))
           \<subseteq> operand_ops operands"
    using z o by simp
  from created_and_foldl [of "map ShapeOfOp operands ! 0" "\<lambda>i. map ShapeOfOp operands ! i"
         "ShapeEqOp (map ShapeOfOp operands ! 0) (map ShapeOfOp operands ! 1)"
         "[2..<length operands]"] z c ks
  show ?thesis unfolding equal_shapes_of_def by blast
qed

lemma created_flatten_operands:
  "(\<Union>x\<in>set (map flatten_operand operands). set (created_ops x)) = operand_ops operands"
  by (simp add: operand_ops_def flatten_operand_def)

lemma created_fast_path_A:
  "set (created_ops (fast_path_A_of op operands))
   = insert (opName op, getAttrs op) (operand_ops operands)"
  using created_flatten_operands [of operands] created_shapes [of operands]
  by (simp add: fast_path_A_of_def del: set_map) (simp add: Un_absorb)

lemma created_reduced_shapes:
  "(\<Union>x\<in>set (reduced_shapes_of operands). set (created_ops x)) \<subseteq> operand_ops operands"
  using created_shapes [of operands]
  by (auto simp: reduced_shapes_of_def operand_ops_def)

lemma created_reshaped_operands:
  "(\<Union>x\<in>set (reshaped_operands_of operands). set (created_ops x)) \<subseteq> operand_ops operands"
proof
  fix p
  assume "p \<in> (\<Union>x\<in>set (reshaped_operands_of operands). set (created_ops x))"
  then obtain a b where ab: "(a, b) \<in> set (zip operands (reduced_shapes_of operands))"
    and p: "p \<in> set (created_ops (DynamicReshapeOp (getType a) a b))"
    by (auto simp: reshaped_operands_of_def)
  from ab have a: "a \<in> set operands" and b: "b \<in> set (reduced_shapes_of operands)"
    by (auto dest: set_zip_leftD set_zip_rightD)
  from p have "p \<in> set (created_ops a) \<or> p \<in> set (created_ops b)" by simp
  then show "p \<in> operand_ops operands"
  proof
    assume "p \<in> set (created_ops a)"
    with a show ?thesis by (auto simp: operand_ops_def)
  next
    assume "p \<in> set (created_ops b)"
    with b created_reduced_shapes [of operands] show ?thesis by blast
  qed
qed

lemma created_select_greater:
  "set (created_ops (foldl select_greater g xs))
   \<subseteq> set (created_ops g) \<union> (\<Union>x\<in>set xs. set (created_ops x))"
proof (induction xs arbitrary: g)
  case Nil
  then show ?case by simp
next
  case (Cons x xs)
  have "set (created_ops (select_greater g x)) \<subseteq> set (created_ops g) \<union> set (created_ops x)"
    by (auto simp: select_greater_def)
  with Cons.IH [of "select_greater g x"] show ?case by auto
qed

lemma created_greater_rank:
  "set (created_ops (greater_rank_of operands)) \<subseteq> operand_ops operands"
proof -
  have a: "set (created_ops (RankOp (MinimumBroadcastShapesOp (map ShapeOfOp operands) 0)))
           \<subseteq> operand_ops operands"
    by (auto simp: operand_ops_def)
  have b: "(\<Union>x\<in>set (map (MinimumBroadcastShapesOp (map ShapeOfOp operands)) [1..<length operands]).
              set (created_ops x)) \<subseteq> operand_ops operands"
    by (auto simp: operand_ops_def)
  from created_select_greater
         [of "RankOp (MinimumBroadcastShapesOp (map ShapeOfOp operands) 0)"
             "map (MinimumBroadcastShapesOp (map ShapeOfOp operands)) [1..<length operands]"]
       a b
  show ?thesis unfolding greater_rank_of_def by blast
qed

lemma created_rank_specialized:
  "set (created_ops_region (createRankSpecializedBroadcastAndOp op xs rs r))
   \<subseteq> insert (opName op, getAttrs op)
        ((\<Union>x\<in>set xs. set (created_ops x)) \<union> (\<Union>x\<in>set rs. set (created_ops x)))"
proof
  fix p
  assume "p \<in> set (created_ops_region (createRankSpecializedBroadcastAndOp op xs rs r))"
  then have "p = (opName op, getAttrs op)
      \<or> (\<exists>a b. (a, b) \<in> set (zip xs rs)
            \<and> p \<in> set (created_ops a) \<union> set (created_ops (createBroadcastToKnownRank b r)))"
    by (auto simp: createRankSpecializedBroadcastAndOp_def Let_def)
  then show "p \<in> insert (opName op, getAttrs op)
        ((\<Union>x\<in>set xs. set (created_ops x)) \<union> (\<Union>x\<in>set rs. set (created_ops x)))"
    by (auto simp: createBroadcastToKnownRank_def Let_def
          dest: set_zip_leftD set_zip_rightD)
qed

lemma created_rank_specialized_mem:
  "(opName op, getAttrs op)
   \<in> set (created_ops_region (createRankSpecializedBroadcastAndOp op xs rs r))"
  by (simp add: createRankSpecializedBroadcastAndOp_def Let_def)

lemma created_ladder_else:
  assumes g: "set (created_ops g) \<subseteq> X"
      and b: "\<And>r. set (created_ops_region (createRankSpecializedBroadcastAndOp op xs rs r))
                   \<subseteq> insert (opName op, getAttrs op) X"
  shows "set (created_ops_region (ladder_else op xs rs g kMax))
         \<subseteq> insert (opName op, getAttrs op) X"
proof -
  have fin: "set (created_ops_region
               (AssertOp (GreaterRankIsN g kMax) msg
                  (createRankSpecializedBroadcastAndOp op xs rs kMax)))
             \<subseteq> insert (opName op, getAttrs op) X" for msg
    using g b [of kMax] by (auto simp: GreaterRankIsN_def)
  have "set (created_ops_region
          (foldr (\<lambda>i else_region.
                    YieldOp (IfOp t (GreaterRankIsN g i)
                               (createRankSpecializedBroadcastAndOp op xs rs i) else_region))
             ks fin_region))
        \<subseteq> insert (opName op, getAttrs op) X"
    if "set (created_ops_region fin_region) \<subseteq> insert (opName op, getAttrs op) X"
    for ks t fin_region
    using that
  proof (induction ks)
    case Nil
    then show ?case by simp
  next
    case (Cons k ks)
    from Cons.IH [OF Cons.prems] g b [of k] show ?case
      by (auto simp: GreaterRankIsN_def)
  qed
  from this [OF fin] show ?thesis unfolding ladder_else_def .
qed

lemma created_ladder_of:
  "set (created_ops (ladder_of op operands))
   \<subseteq> insert (opName op, getAttrs op) (operand_ops operands)"
proof -
  have g: "set (created_ops (greater_rank_of operands)) \<subseteq> operand_ops operands"
    by (rule created_greater_rank)
  have b: "set (created_ops_region
                 (createRankSpecializedBroadcastAndOp op (reshaped_operands_of operands)
                    (reduced_shapes_of operands) r))
           \<subseteq> insert (opName op, getAttrs op) (operand_ops operands)" for r
    using created_rank_specialized [of op "reshaped_operands_of operands"
            "reduced_shapes_of operands" r]
          created_reshaped_operands [of operands] created_reduced_shapes [of operands]
    by blast
  have s: "set (created_ops (BroadcastOp (map ShapeOfOp operands))) \<subseteq> operand_ops operands"
    by (simp add: operand_ops_def)
  have c: "set (created_ops (GreaterRankIsN (greater_rank_of operands) 1))
           \<subseteq> operand_ops operands"
    using g by (simp add: GreaterRankIsN_def)
  from created_ladder_else [OF g b, of "kMaxRankSpecialization operands"] b [of 1] s c
  show ?thesis
    unfolding ladder_of_def
    by (simp only: created_ops.simps set_append Un_subset_iff) blast
qed

lemma created_elementwise:
  assumes "ElementwiseOpConversion op = success v"
  shows "(opName op, getAttrs op) \<in> set (created_ops v)
       \<and> set (created_ops v)
           \<subseteq> insert (opName op, getAttrs op) (operand_ops (getOperands op))"
proof -
  let ?shapes = "map ShapeOfOp (getOperands op)"
  let ?shape = "if length ?shapes = 1 then hd ?shapes else AnyOp ?shapes"
  have sh: "set (created_ops ?shape) \<subseteq> operand_ops (getOperands op)"
  proof (cases "length (getOperands op) = 1")
    case True
    then obtain x where "getOperands op = [x]" by (cases "getOperands op") auto
    then show ?thesis by (simp add: operand_ops_def)
  next
    case False
    then show ?thesis by (simp add: operand_ops_def)
  qed
  from assms have v: "v = DynamicReshapeOp (getResultType op)
        (CreateOp (opName op)
           (RankedTensorType [kDynamicSize] (getElementType (getResultType op)))
           (map (\<lambda>operand. DynamicReshapeOp
                   (RankedTensorType [kDynamicSize] (getElementType (getType operand)))
                   operand (FromElementsOp (NumElementsOp ?shape)))
              (getOperands op))
           (getAttrs op))
        ?shape"
    by (simp add: ElementwiseOpConversion_def Let_def split: if_splits)
  have fl: "(\<Union>x\<in>set (map (\<lambda>operand. DynamicReshapeOp
                   (RankedTensorType [kDynamicSize] (getElementType (getType operand)))
                   operand (FromElementsOp (NumElementsOp ?shape)))
              (getOperands op)). set (created_ops x))
            \<subseteq> operand_ops (getOperands op)"
    using sh by (auto simp: operand_ops_def)
  show ?thesis
    unfolding v using sh fl
    by (simp only: created_ops.simps set_append set_concat set_map list.set
          image_image Un_subset_iff) blast
qed

lemma created_scalar:
  assumes "ConvertUnrankedScalarDynamicBroadcastBinaryOp op operands = success v"
  shows "(opName op, getAttrs op) \<in> set (created_ops v)
       \<and> set (created_ops v) \<subseteq> insert (opName op, getAttrs op) (operand_ops operands)"
proof -
  have "\<exists>lhs rhs. operands = [lhs, rhs]"
  proof (cases operands)
    case Nil
    with assms show ?thesis by simp
  next
    case (Cons x xs)
    note c1 = this
    show ?thesis
    proof (cases xs)
      case Nil
      with assms c1 show ?thesis by simp
    next
      case (Cons y ys)
      with assms c1 show ?thesis by (cases ys) simp_all
    qed
  qed
  then obtain lhs rhs where o: "operands = [lhs, rhs]" by blast
  from assms show ?thesis
    unfolding o
    by (auto simp: Let_def operand_ops_def split: if_splits)
qed

lemma created_nary:
  assumes "ConvertUnrankedDynamicBroadcastNaryOp hlo op operands = success v"
  shows "(opName op, getAttrs op) \<in> set (created_ops v)
       \<and> set (created_ops v) \<subseteq> insert (opName op, getAttrs op) (operand_ops operands)"
proof -
  from assms have tens: "\<not> list_ex (\<lambda>operand. \<not> isa_TensorType (getType operand)) operands"
    by (auto simp: ConvertUnrankedDynamicBroadcastNaryOp_def Let_def split: if_splits)
  from assms have unr: "list_ex (\<lambda>operand. isa_UnrankedTensorType (getType operand)) operands"
    by (auto simp: ConvertUnrankedDynamicBroadcastNaryOp_def Let_def split: if_splits)
  from assms tens unr have two: "2 \<le> length operands"
    by (cases "length operands < 2")
       (simp_all add: ConvertUnrankedDynamicBroadcastNaryOp_def Let_def)
  from assms nary_success [OF tens unr two, of hlo op]
  have v: "v = IfOp (getResultType op) (at_most_one_non_scalar_of operands)
          (YieldOp (fast_path_A_of op operands))
          (YieldOp
             (IfOp (getResultType op) (equal_shapes_of operands)
                (YieldOp (AdaptorCreateOp hlo (opName op) (getAttrs op) (getResultType op)
                            operands))
                (YieldOp (ladder_of op operands))))"
    by simp
  have ad: "set (created_ops (AdaptorCreateOp hlo (opName op) (getAttrs op) (getResultType op)
                   operands)) \<subseteq> operand_ops operands"
    by (simp add: operand_ops_def)
  show ?thesis
    unfolding v
    using created_at_most_one_non_scalar [of operands] created_fast_path_A [of op operands]
          created_equal_shapes [OF two] created_ladder_of [of op operands] ad
    by (simp only: created_ops.simps created_ops_region.simps set_append Un_subset_iff) blast
qed

lemma rpad_Cons: "rpad (Suc r) (x # xs) = x # rpad r xs"
  by (simp add: rpad_def)

lemma broadcast_rev_ones_left:
  "length ys \<le> r \<Longrightarrow>
   broadcast_rev (replicate r (Suc 0)) ys = Some (ys @ replicate (r - length ys) (Suc 0))"
proof (induction ys arbitrary: r)
  case Nil
  then show ?case by (simp add: broadcast_rev_Nil_right)
next
  case (Cons y ys)
  then obtain r' where r: "r = Suc r'" by (cases r) auto
  with Cons show ?case by auto
qed

lemma broadcast_rev_rpad_left:
  "length xs \<le> r \<Longrightarrow> length ys \<le> r \<Longrightarrow>
   broadcast_rev (rpad r xs) ys = map_option (rpad r) (broadcast_rev xs ys)"
proof (induction xs arbitrary: ys r)
  case Nil
  then show ?case by (simp add: rpad_def broadcast_rev_ones_left)
next
  case (Cons x xs)
  then obtain r' where r: "r = Suc r'" by (cases r) auto
  show ?case
  proof (cases ys)
    case Nil
    then show ?thesis by (simp add: broadcast_rev_Nil_right)
  next
    case c: (Cons y ys')
    from Cons.prems r c have l: "length xs \<le> r'" "length ys' \<le> r'" by simp_all
    from Cons.IH [OF l] show ?thesis
      by (simp add: r c rpad_Cons option.map_comp comp_def)
  qed
qed

lemma broadcast_rev_rpad_right:
  "length xs \<le> r \<Longrightarrow> length ys \<le> r \<Longrightarrow>
   broadcast_rev xs (rpad r ys) = map_option (rpad r) (broadcast_rev xs ys)"
proof (induction xs arbitrary: ys r)
  case Nil
  then show ?case by simp
next
  case (Cons x xs)
  then obtain r' where r: "r = Suc r'" by (cases r) auto
  show ?case
  proof (cases ys)
    case Nil
    with Cons.prems show ?thesis
      using broadcast_rev_ones [of "x # xs" r] by (simp add: rpad_def)
  next
    case c: (Cons y ys')
    from Cons.prems r c have l: "length xs \<le> r'" "length ys' \<le> r'" by simp_all
    from Cons.IH [OF l] show ?thesis
      by (simp add: r c rpad_Cons option.map_comp comp_def)
  qed
qed

lemma rev_pad_to_rank: "rev (pad_to_rank r s) = rpad r (rev s)"
  by (simp add: pad_to_rank_def rpad_def)

lemma rev_rpad: "rev (rpad r xs) = pad_to_rank r (rev xs)"
  by (simp add: pad_to_rank_def rpad_def)

lemma rpad_idem: "rpad r (rpad r xs) = rpad r xs"
  by (simp add: rpad_def)

lemma length_rpad: "length xs \<le> r \<Longrightarrow> length (rpad r xs) = r"
  by (simp add: rpad_def)

lemma length_broadcast_rev:
  "broadcast_rev xs ys = Some zs \<Longrightarrow> length zs = max (length xs) (length ys)"
proof (induction xs arbitrary: ys zs)
  case Nil
  then show ?case by simp
next
  case (Cons x xs)
  show ?case
  proof (cases ys)
    case Nil
    with Cons.prems show ?thesis by simp
  next
    case c: (Cons y ys')
    with Cons.prems obtain zs' where z: "broadcast_rev xs ys' = Some zs'"
      and zs: "length zs = Suc (length zs')"
      by (auto split: if_splits)
    from Cons.IH [OF z] zs c show ?thesis by simp
  qed
qed

lemma length_broadcast2:
  "broadcast2 a b = Some c \<Longrightarrow> length c = max (length a) (length b)"
  by (auto simp: broadcast2_def dest: length_broadcast_rev)

lemma broadcast2_pad:
  assumes "length a \<le> r" "length b \<le> r"
  shows "broadcast2 (pad_to_rank r a) (pad_to_rank r b)
         = map_option (pad_to_rank r) (broadcast2 a b)"
proof -
  have "broadcast_rev (rpad r (rev a)) (rpad r (rev b))
        = map_option (rpad r) (broadcast_rev (rev a) (rpad r (rev b)))"
    using assms by (intro broadcast_rev_rpad_left) (simp_all add: length_rpad)
  also have "\<dots> = map_option (rpad r) (map_option (rpad r) (broadcast_rev (rev a) (rev b)))"
    using assms by (simp add: broadcast_rev_rpad_right)
  also have "\<dots> = map_option (rpad r) (broadcast_rev (rev a) (rev b))"
    by (simp add: option.map_comp comp_def rpad_idem)
  finally show ?thesis
    by (simp add: broadcast2_def rev_pad_to_rank option.map_comp comp_def rev_rpad)
qed

lemma pad_to_rank_full: "length s = r \<Longrightarrow> pad_to_rank r s = s"
  by (simp add: pad_to_rank_def)

lemma length_pad_to_rank: "length s \<le> r \<Longrightarrow> length (pad_to_rank r s) = r"
  by (simp add: pad_to_rank_def)

lemma foldl_broadcast_None:
  "foldl (\<lambda>acc s. case acc of None \<Rightarrow> None | Some a \<Rightarrow> broadcast2 a s) None ss = None"
  by (induction ss) simp_all

lemma foldl_broadcast_pad:
  assumes "length a \<le> r" "list_all (\<lambda>s. length s \<le> r) ss"
  shows "foldl (\<lambda>acc s. case acc of None \<Rightarrow> None | Some a \<Rightarrow> broadcast2 a s)
           (Some (pad_to_rank r a)) (map (pad_to_rank r) ss)
         = map_option (pad_to_rank r)
             (foldl (\<lambda>acc s. case acc of None \<Rightarrow> None | Some a \<Rightarrow> broadcast2 a s) (Some a) ss)"
  using assms
proof (induction ss arbitrary: a)
  case Nil
  then show ?case by simp
next
  case (Cons s ss)
  then have s: "length s \<le> r" and ss: "list_all (\<lambda>s. length s \<le> r) ss" by simp_all
  show ?case
  proof (cases "broadcast2 a s")
    case None
    then show ?thesis
      by (simp add: broadcast2_pad [OF Cons.prems(1) s] foldl_broadcast_None)
  next
    case (Some c)
    from length_broadcast2 [OF Some] Cons.prems(1) s have c: "length c \<le> r" by simp
    from Cons.IH [OF c ss] show ?thesis
      by (simp add: broadcast2_pad [OF Cons.prems(1) s] Some)
  qed
qed

lemma length_foldl_broadcast:
  "foldl (\<lambda>acc s. case acc of None \<Rightarrow> None | Some a \<Rightarrow> broadcast2 a s) (Some a) ss = Some S
   \<Longrightarrow> length S = max (length a) (max_rank ss)"
proof (induction ss arbitrary: a)
  case Nil
  then show ?case by (simp add: max_rank_def)
next
  case (Cons s ss)
  show ?case
  proof (cases "broadcast2 a s")
    case None
    with Cons.prems show ?thesis by (simp add: foldl_broadcast_None)
  next
    case (Some c)
    with Cons.prems Cons.IH [of c] length_broadcast2 [OF Some] show ?thesis
      by (simp add: max_rank_def)
  qed
qed

lemma length_broadcastShape:
  "broadcastShape ss = Some S \<Longrightarrow> length S = max_rank ss"
  using length_foldl_broadcast [of "[]" ss S] by (simp add: broadcastShape_def)

lemma broadcastShape_pad:
  assumes "list_all (\<lambda>s. length s \<le> r) ss" and "ss \<noteq> []"
  shows "broadcastShape (map (pad_to_rank r) ss) = map_option (pad_to_rank r) (broadcastShape ss)"
proof -
  from assms obtain s rest where ss: "ss = s # rest" by (cases ss) auto
  with assms have s: "length s \<le> r" and rest: "list_all (\<lambda>s. length s \<le> r) rest"
    by simp_all
  show ?thesis
    using foldl_broadcast_pad [OF s rest]
    by (simp add: ss broadcastShape_def broadcast2_Nil)
qed

lemma broadcastShape_pad_max:
  assumes "ss \<noteq> []"
  shows "broadcastShape (map (pad_to_rank (max_rank ss)) ss) = broadcastShape ss"
proof (cases "broadcastShape ss")
  case None
  then show ?thesis by (simp add: broadcastShape_pad [OF max_rank_bound assms])
next
  case (Some S)
  from length_broadcastShape [OF Some] show ?thesis
    by (simp add: broadcastShape_pad [OF max_rank_bound assms] Some pad_to_rank_full)
qed

lemma foldl_offset_ones:
  "foldl (\<lambda>acc (d, i). acc * d + (if d = 1 then 0 else i)) 0 (zip (replicate k (Suc 0)) xs) = 0"
proof (induction k arbitrary: xs)
  case 0
  then show ?case by simp
next
  case (Suc k)
  then show ?case by (cases xs) simp_all
qed

lemma offset_pad_to_rank:
  assumes "length idx = r" "length s \<le> r"
  shows "offset (pad_to_rank r s) idx = offset s idx"
proof -
  have "offset (pad_to_rank r s) idx
        = foldl (\<lambda>acc (d, i). acc * d + (if d = 1 then 0 else i)) 0
            (zip (replicate (r - length s) (Suc 0) @ s) idx)"
    using assms by (simp add: offset_def pad_to_rank_def)
  also have "\<dots> = foldl (\<lambda>acc (d, i). acc * d + (if d = 1 then 0 else i)) 0
            (zip s (drop (r - length s) idx))"
    by (simp only: zip_append1 foldl_append length_replicate foldl_offset_ones)
  finally show ?thesis using assms by (simp add: offset_def)
qed

lemma length_indices: "length (indices s) = prod_list s"
  by (induction s) (simp_all add: indices_def length_concat comp_def sum_list_triv)

lemma length_in_indices: "idx \<in> set (indices s) \<Longrightarrow> length idx = length s"
  using in_set_product_lists_length [of idx "map (\<lambda>d. [0..<d]) s"]
  by (simp add: indices_def)

lemma read_positions_pad_max:
  assumes "ss \<noteq> []"
  shows "read_positions (map (pad_to_rank (max_rank ss)) ss) = read_positions ss"
proof (cases "broadcastShape ss")
  case None
  then show ?thesis
    by (simp add: read_positions_def broadcastShape_pad_max [OF assms])
next
  case (Some S)
  have r: "length S = max_rank ss" by (rule length_broadcastShape [OF Some])
  have "map (\<lambda>idx. map (\<lambda>s'. offset s' idx) (map (pad_to_rank (max_rank ss)) ss)) (indices S)
        = map (\<lambda>idx. map (\<lambda>s'. offset s' idx) ss) (indices S)"
  proof (rule map_cong [OF refl])
    fix idx
    assume "idx \<in> set (indices S)"
    then have l: "length idx = max_rank ss" using length_in_indices r by metis
    show "map (\<lambda>s'. offset s' idx) (map (pad_to_rank (max_rank ss)) ss)
          = map (\<lambda>s'. offset s' idx) ss"
      using max_rank_bound [of ss]
      by (simp add: list_all_iff offset_pad_to_rank [OF l])
  qed
  then show ?thesis
    by (simp add: read_positions_def broadcastShape_pad_max [OF assms] Some)
qed

text \<open>apply_broadcasting through the table of read positions\<close>

lemma apply_broadcasting_rows:
  assumes "broadcastShape (map fst ts) = Some S"
      and "read_positions (map fst ts) = Some tab"
  shows "apply_broadcasting g ts
         = Inr (TensorV S (map (\<lambda>row. g (map (\<lambda>p. fst p ! snd p) (zip (map snd ts) row))) tab))"
proof -
  have row: "map (\<lambda>t. snd t ! offset (fst t) idx) ts
             = map (\<lambda>p. fst p ! snd p) (zip (map snd ts) (map (\<lambda>s'. offset s' idx) (map fst ts)))"
    for idx
    by (induction ts) simp_all
  from assms have tab: "tab = map (\<lambda>idx. map (\<lambda>s'. offset s' idx) (map fst ts)) (indices S)"
    by (simp add: read_positions_def)
  show ?thesis
    by (simp add: apply_broadcasting_def assms(1) tab row comp_def)
qed

lemma read_positions_length:
  assumes "broadcastShape ss = Some S" and "read_positions ss = Some tab"
  shows "length tab = prod_list S"
  using assms by (auto simp: read_positions_def length_indices)

lemma map_fst_pad_zip:
  assumes "length xs = length ys"
  shows "map fst (map (\<lambda>p. (h (fst p), snd p)) (zip xs ys)) = map h xs"
proof -
  have "map fst (map (\<lambda>p. (h (fst p), snd p)) (zip xs ys)) = map h (map fst (zip xs ys))"
    by (simp add: comp_def)
  also have "\<dots> = map h xs" using assms by (simp only: map_fst_zip)
  finally show ?thesis .
qed

lemma map_snd_pad_zip:
  assumes "length xs = length ys"
  shows "map snd (map (\<lambda>p. (h (fst p), snd p)) (zip xs ys)) = ys"
proof -
  have "map snd (map (\<lambda>p. (h (fst p), snd p)) (zip xs ys)) = map snd (zip xs ys)"
    by (simp add: comp_def)
  also have "\<dots> = ys" using assms by (simp only: map_snd_zip)
  finally show ?thesis .
qed

lemma reduced_broadcast_equals_direct:
  assumes bc: "broadcastShape (map fst ts) = Some S"
      and len: "length reds = length ts"
      and ne: "ts \<noteq> []"
      and same: "read_positions reds = read_positions (map fst ts)"
  shows "dynamic_reshape_sem
           (apply_broadcasting g
              (map (\<lambda>p. (pad_to_rank (max_rank reds) (fst p), snd p)) (zip reds (map snd ts))))
           (Inr (ShapeV S))
         = apply_broadcasting g ts"
proof -
  let ?P = "map (\<lambda>p. (pad_to_rank (max_rank reds) (fst p), snd p)) (zip reds (map snd ts))"
  from ne len have rne: "reds \<noteq> []" by auto
  have le: "length reds = length (map snd ts)" using len by simp
  have f: "map fst ?P = map (pad_to_rank (max_rank reds)) reds"
    by (rule map_fst_pad_zip [OF le])
  have sn: "map snd ?P = map snd ts"
    by (rule map_snd_pad_zip [OF le])
  obtain tab where tab: "read_positions (map fst ts) = Some tab"
    using bc by (simp add: read_positions_def)
  with same have rtab: "read_positions reds = Some tab" by simp
  then obtain S' where S': "broadcastShape reds = Some S'"
    by (cases "broadcastShape reds") (simp_all add: read_positions_def)
  have ptab: "read_positions (map fst ?P) = Some tab"
    by (simp only: f read_positions_pad_max [OF rne] rtab)
  have pS: "broadcastShape (map fst ?P) = Some S'"
    by (simp only: f broadcastShape_pad_max [OF rne] S')
  have l1: "length tab = prod_list S" by (rule read_positions_length [OF bc tab])
  have l2: "length tab = prod_list S'" by (rule read_positions_length [OF S' rtab])
  have "apply_broadcasting g ?P
        = Inr (TensorV S' (map (\<lambda>row. g (map (\<lambda>p. fst p ! snd p) (zip (map snd ts) row))) tab))"
    using apply_broadcasting_rows [OF pS ptab, of g] by (simp only: sn)
  then have "dynamic_reshape_sem (apply_broadcasting g ?P) (Inr (ShapeV S))
        = Inr (TensorV S (map (\<lambda>row. g (map (\<lambda>p. fst p ! snd p) (zip (map snd ts) row))) tab))"
    using l1 l2 by (simp add: dynamic_reshape_sem_def)
  also have "\<dots> = apply_broadcasting g ts"
    by (rule apply_broadcasting_rows [OF bc tab, symmetric])
  finally show ?thesis .
qed

subsection \<open>The flatten-apply-restore pattern\<close>

text \<open>
  On operands of shapes \<open>[1, 2]\<close> and \<open>[2, 1]\<close> the rewritten code returns a tensor of
  shape \<open>[1, 2]\<close> with the elements added position by position, where direct evaluation of
  the elementwise operation is not defined, and a broadcasting evaluation would give a
  tensor of shape \<open>[2, 2]\<close>.
\<close>

theorem flatten_apply_restore_differing_shapes:
  "eval_result add_fn id [TensorV [1, 2] [10, 20], TensorV [2, 1] [1, 2]]
     (ElementwiseOpConversion mhlo_add) = Inr (TensorV [1, 2] [11, 22])
   \<and> apply_elementwise (add_fn ''mhlo.add'' []) [([1, 2], [10, 20]), ([2, 1], [1, 2])]
       = Inl IncompatibleShapes
   \<and> apply_broadcasting (add_fn ''mhlo.add'' []) [([1, 2], [10, 20]), ([2, 1], [1, 2])]
       = Inr (TensorV [2, 2] [11, 21, 12, 22])"
  by code_simp

text \<open>
  Claim C1, amended: whenever direct evaluation of the elementwise operation on the operand
  tensors is defined (they all have one shape, of any rank) and gives \<open>r\<close>, the code emitted
  by the flatten-apply-restore pattern evaluates to \<open>r\<close> as well: the same shape and the
  same element at every position.
\<close>

theorem flatten_apply_restore_equal_shapes:
  assumes unr: "list_ex (\<lambda>operand. isa_UnrankedTensorType (getType operand)) (getOperands op)"
      and ev: "map (eval fn mbs env) (getOperands op) =
               map (\<lambda>t. Inr (TensorV (fst t) (snd t))) ts"
      and direct: "apply_elementwise (fn (opName op) (getAttrs op)) ts = Inr r"
  shows "eval_result fn mbs env (ElementwiseOpConversion op) = Inr r"
proof -
  define S where "S = fst (hd ts)"
  from apply_elementwise_Inr [OF direct]
  have ne: "ts \<noteq> []" and same: "list_all (\<lambda>t. fst t = S) ts"
    by (simp_all add: S_def)
  have "eval_result fn mbs env (ElementwiseOpConversion op)
        = Inr (TensorV S (map (\<lambda>i. fn (opName op) (getAttrs op) (map (\<lambda>t. snd t ! i) ts))
                            [0..<prod_list S]))"
    unfolding ElementwiseOpConversion_def Let_def
    using unr
    by (simp only: if_not_P not_not eval_result.simps
          flatten_tree_eval [OF ev ne same flat_shape_eval [OF ev ne same]])
  also have "\<dots> = apply_elementwise (fn (opName op) (getAttrs op)) ts"
    by (simp add: apply_elementwise_same [OF ne same])
  finally show ?thesis by (simp add: direct)
qed

theorem flatten_apply_restore_equal_shapes_witness:
  "list_ex (\<lambda>operand. isa_UnrankedTensorType (getType operand)) (getOperands mhlo_add)
   \<and> map (eval add_fn id [TensorV [2, 3] [1, 2, 3, 4, 5, 6], TensorV [2, 3] [10, 20, 30, 40, 50, 60]])
         (getOperands mhlo_add)
       = map (\<lambda>t. Inr (TensorV (fst t) (snd t)))
           [([2, 3], [1, 2, 3, 4, 5, 6]), ([2, 3], [10, 20, 30, 40, 50, 60])]
   \<and> apply_elementwise (add_fn (opName mhlo_add) (getAttrs mhlo_add))
         [([2, 3], [1, 2, 3, 4, 5, 6]), ([2, 3], [10, 20, 30, 40, 50, 60])]
       = Inr (TensorV [2, 3] [11, 22, 33, 44, 55, 66])
   \<and> eval_result add_fn id [TensorV [2, 3] [1, 2, 3, 4, 5, 6], TensorV [2, 3] [10, 20, 30, 40, 50, 60]]
         (ElementwiseOpConversion mhlo_add)
       = Inr (TensorV [2, 3] [11, 22, 33, 44, 55, 66])"
proof -
  have h1: "list_ex (\<lambda>operand. isa_UnrankedTensorType (getType operand)) (getOperands mhlo_add)"
    by (simp add: mhlo_add_def unranked_f32_def)
  have h2: "map (eval add_fn id [TensorV [2, 3] [1, 2, 3, 4, 5, 6], TensorV [2, 3] [10, 20, 30, 40, 50, 60]])
              (getOperands mhlo_add)
            = map (\<lambda>t. Inr (TensorV (fst t) (snd t)))
                [([2, 3], [1, 2, 3, 4, 5, 6]), ([2, 3], [10, 20, 30, 40, 50, 60])]"
    by (simp add: mhlo_add_def)
  have h3: "apply_elementwise (add_fn (opName mhlo_add) (getAttrs mhlo_add))
              [([2, 3], [1, 2, 3, 4, 5, 6]), ([2, 3], [10, 20, 30, 40, 50, 60])]
            = Inr (TensorV [2, 3] [11, 22, 33, 44, 55, 66])"
    by code_simp
  from flatten_apply_restore_equal_shapes [OF h1 h2 h3] h1 h2 h3 show ?thesis
    by (intro conjI)
qed

subsection \<open>The scalar-broadcast pattern\<close>

text \<open>
  Claim C7: the scalar-broadcast pattern succeeds on a binary operation exactly when one
  operand has a ranked type of rank 0 and the other operand is unranked; both operands
  cannot meet that condition at once, and when the condition does not hold the pattern
  returns failure, replacing nothing.
\<close>

theorem scalar_pattern_match_iff:
  "((\<exists>v. ConvertUnrankedScalarDynamicBroadcastBinaryOp op [lhs, rhs] = success v) \<longleftrightarrow>
      (is_scalar_type (getType lhs) \<and> isa_UnrankedTensorType (getType rhs))
        \<noteq> (is_scalar_type (getType rhs) \<and> isa_UnrankedTensorType (getType lhs)))
   \<and> (\<not> (\<exists>v. ConvertUnrankedScalarDynamicBroadcastBinaryOp op [lhs, rhs] = success v) \<longrightarrow>
        ConvertUnrankedScalarDynamicBroadcastBinaryOp op [lhs, rhs] = failure)
   \<and> \<not> ((is_scalar_type (getType lhs) \<and> isa_UnrankedTensorType (getType rhs))
        \<and> (is_scalar_type (getType rhs) \<and> isa_UnrankedTensorType (getType lhs)))"
  by (auto simp: lhs_is_scalar_def rhs_is_scalar_def is_scalar_type_def Let_def dest: isa_excl)

theorem scalar_pattern_match_iff_witness:
  "(\<exists>v. ConvertUnrankedScalarDynamicBroadcastBinaryOp chlo_broadcast_add
           [Arg 0 scalar_f32, Arg 1 unranked_f32] = success v)
   \<and> ConvertUnrankedScalarDynamicBroadcastBinaryOp chlo_broadcast_add
           [Arg 0 unranked_f32, Arg 1 unranked_f32] = failure
   \<and> ConvertUnrankedScalarDynamicBroadcastBinaryOp chlo_broadcast_add
           [Arg 0 scalar_f32, Arg 1 scalar_f32] = failure"
  using scalar_pattern_match_iff [of chlo_broadcast_add "Arg 0 scalar_f32" "Arg 1 unranked_f32"]
        scalar_pattern_match_iff [of chlo_broadcast_add "Arg 0 unranked_f32" "Arg 1 unranked_f32"]
        scalar_pattern_match_iff [of chlo_broadcast_add "Arg 0 scalar_f32" "Arg 1 scalar_f32"]
  by (simp add: is_scalar_type_def scalar_f32_def unranked_f32_def)

text \<open>
  Claim C9: in the code emitted by the scalar-broadcast pattern, for a scalar operand of
  value \<open>x\<close> and an unranked operand of run-time shape \<open>S\<close> and elements \<open>e\<close>, the result
  has shape \<open>S\<close> and its element at each position is the operation applied to \<open>x\<close> and
  the operand's element at that position, in the operands' own left/right order.
\<close>

theorem scalar_broadcast_result:
  assumes wf: "length e = prod_list S"
  shows "(lhs_is_scalar lhs rhs \<and> eval fn mbs env lhs = Inr (TensorV [] [x])
            \<and> eval fn mbs env rhs = Inr (TensorV S e) \<longrightarrow>
          eval_result fn mbs env (ConvertUnrankedScalarDynamicBroadcastBinaryOp op [lhs, rhs])
            = Inr (TensorV S (map (\<lambda>y. fn (opName op) (getAttrs op) [x, y]) e)))
       \<and> (rhs_is_scalar lhs rhs \<and> eval fn mbs env rhs = Inr (TensorV [] [x])
            \<and> eval fn mbs env lhs = Inr (TensorV S e) \<longrightarrow>
          eval_result fn mbs env (ConvertUnrankedScalarDynamicBroadcastBinaryOp op [lhs, rhs])
            = Inr (TensorV S (map (\<lambda>y. fn (opName op) (getAttrs op) [y, x]) e)))"
proof (intro conjI impI; elim conjE)
  assume l: "lhs_is_scalar lhs rhs"
     and sc: "eval fn mbs env lhs = Inr (TensorV [] [x])"
     and te: "eval fn mbs env rhs = Inr (TensorV S e)"
  from l have r: "\<not> rhs_is_scalar lhs rhs" by (rule scalar_excl)
  show "eval_result fn mbs env (ConvertUnrankedScalarDynamicBroadcastBinaryOp op [lhs, rhs])
            = Inr (TensorV S (map (\<lambda>y. fn (opName op) (getAttrs op) [x, y]) e))"
    using l r scalar_tree_eval_lhs [OF sc te wf]
    by (simp add: Let_def del: eval.simps)
next
  assume r: "rhs_is_scalar lhs rhs"
     and sc: "eval fn mbs env rhs = Inr (TensorV [] [x])"
     and te: "eval fn mbs env lhs = Inr (TensorV S e)"
  from r have l: "\<not> lhs_is_scalar lhs rhs" using scalar_excl by blast
  show "eval_result fn mbs env (ConvertUnrankedScalarDynamicBroadcastBinaryOp op [lhs, rhs])
            = Inr (TensorV S (map (\<lambda>y. fn (opName op) (getAttrs op) [y, x]) e))"
    using l r scalar_tree_eval_rhs [OF sc te wf]
    by (simp add: Let_def del: eval.simps)
qed

theorem scalar_broadcast_result_witness:
  "length [10, 20, 30, 40 :: int] = prod_list [2, 2]
   \<and> lhs_is_scalar (Arg 0 scalar_f32) (Arg 1 unranked_f32)
   \<and> eval add_fn id [TensorV [] [1], TensorV [2, 2] [10, 20, 30, 40]] (Arg 0 scalar_f32)
       = Inr (TensorV [] [1])
   \<and> eval add_fn id [TensorV [] [1], TensorV [2, 2] [10, 20, 30, 40]] (Arg 1 unranked_f32)
       = Inr (TensorV [2, 2] [10, 20, 30, 40])
   \<and> eval_result add_fn id [TensorV [] [1], TensorV [2, 2] [10, 20, 30, 40]]
        (ConvertUnrankedScalarDynamicBroadcastBinaryOp chlo_broadcast_add
           [Arg 0 scalar_f32, Arg 1 unranked_f32])
       = Inr (TensorV [2, 2] [11, 21, 31, 41])"
proof -
  have wf: "length [10, 20, 30, 40 :: int] = prod_list [2, 2]" by simp
  have l: "lhs_is_scalar (Arg 0 scalar_f32) (Arg 1 unranked_f32)"
    by (simp add: lhs_is_scalar_def scalar_f32_def unranked_f32_def)
  have sc: "eval add_fn id [TensorV [] [1], TensorV [2, 2] [10, 20, 30, 40]] (Arg 0 scalar_f32)
            = Inr (TensorV [] [1])"
    by simp
  have te: "eval add_fn id [TensorV [] [1], TensorV [2, 2] [10, 20, 30, 40]] (Arg 1 unranked_f32)
            = Inr (TensorV [2, 2] [10, 20, 30, 40])"
    by simp
  from scalar_broadcast_result [OF wf, of "Arg 0 scalar_f32" "Arg 1 unranked_f32" add_fn id
         "[TensorV [] [1], TensorV [2, 2] [10, 20, 30, 40]]" 1 chlo_broadcast_add] l sc te
  have "eval_result add_fn id [TensorV [] [1], TensorV [2, 2] [10, 20, 30, 40]]
          (ConvertUnrankedScalarDynamicBroadcastBinaryOp chlo_broadcast_add
             [Arg 0 scalar_f32, Arg 1 unranked_f32])
        = Inr (TensorV [2, 2] (map (\<lambda>y. add_fn (opName chlo_broadcast_add)
                                       (getAttrs chlo_broadcast_add) [1, y]) [10, 20, 30, 40]))"
    by blast
  then have "eval_result add_fn id [TensorV [] [1], TensorV [2, 2] [10, 20, 30, 40]]
          (ConvertUnrankedScalarDynamicBroadcastBinaryOp chlo_broadcast_add
             [Arg 0 scalar_f32, Arg 1 unranked_f32])
        = Inr (TensorV [2, 2] [11, 21, 31, 41])"
    by (simp add: add_fn_def)
  with wf l sc te show ?thesis by (intro conjI)
qed

subsection \<open>The n-ary dispatch pattern\<close>

text \<open>
  Claim C6: the first test of the n-ary dispatch pattern compares, at run time, the number
  of operands whose shape has exactly one element with \<open>N - 1\<close>, \<open>N\<close> being the number of
  operands.  The branch it guards reshapes every operand to the 1-D tensor of its own
  elements, applies the operation to these rank-1 operands and reshapes the result to the
  broadcast shape of all operand shapes; when at least \<open>N - 1\<close> operands have one element,
  that branch gives the result of the whole emitted code.
\<close>

theorem scalar_like_fast_path:
  assumes tens: "\<not> list_ex (\<lambda>operand. \<not> isa_TensorType (getType operand)) operands"
      and unr: "list_ex (\<lambda>operand. isa_UnrankedTensorType (getType operand)) operands"
      and two: "2 \<le> length operands"
      and bound: "length operands < 2 ^ 64"
      and ev: "map (eval fn mbs env) operands = map (\<lambda>t. Inr (TensorV (fst t) (snd t))) ts"
  shows "(\<exists>c r2.
            ConvertUnrankedDynamicBroadcastNaryOp hlo op operands
            = success
                (IfOp (getResultType op) c
                   (YieldOp
                      (DynamicReshapeOp (getResultType op)
                         (CreateOp (opName op)
                            (RankedTensorType [kDynamicSize] (getElementType (getResultType op)))
                            (map flatten_operand operands) (getAttrs op))
                         (BroadcastOp (map ShapeOfOp operands))))
                   r2)
            \<and> eval fn mbs env c
                = Inr (BoolV (length operands - 1 \<le> count_single (map fst ts))))
       \<and> map (eval fn mbs env) (map flatten_operand operands)
           = map (\<lambda>t. Inr (TensorV [prod_list (fst t)] (snd t))) ts
       \<and> (length operands - 1 \<le> count_single (map fst ts)
            \<and> broadcastShape (map fst ts) = Some S \<longrightarrow>
          eval_result fn mbs env (ConvertUnrankedDynamicBroadcastNaryOp hlo op operands)
          = dynamic_reshape_sem
              (apply_broadcasting (fn (opName op) (getAttrs op))
                 (map (\<lambda>t. ([prod_list (fst t)], snd t)) ts))
              (Inr (ShapeV S)))"
proof (intro conjI impI)
  show "\<exists>c r2.
            ConvertUnrankedDynamicBroadcastNaryOp hlo op operands
            = success
                (IfOp (getResultType op) c
                   (YieldOp
                      (DynamicReshapeOp (getResultType op)
                         (CreateOp (opName op)
                            (RankedTensorType [kDynamicSize] (getElementType (getResultType op)))
                            (map flatten_operand operands) (getAttrs op))
                         (BroadcastOp (map ShapeOfOp operands))))
                   r2)
            \<and> eval fn mbs env c
                = Inr (BoolV (length operands - 1 \<le> count_single (map fst ts)))"
    using nary_success [OF tens unr two, of hlo op]
          eval_at_most_one_non_scalar [OF ev two bound]
    unfolding fast_path_A_of_def by blast
next
  show "map (eval fn mbs env) (map flatten_operand operands)
           = map (\<lambda>t. Inr (TensorV [prod_list (fst t)] (snd t))) ts"
    by (rule eval_flatten_operands [OF ev])
next
  assume a: "length operands - 1 \<le> count_single (map fst ts)
            \<and> broadcastShape (map fst ts) = Some S"
  then have A: "length operands - 1 \<le> count_single (map fst ts)"
    and bc: "broadcastShape (map fst ts) = Some S" by simp_all
  show "eval_result fn mbs env (ConvertUnrankedDynamicBroadcastNaryOp hlo op operands)
          = dynamic_reshape_sem
              (apply_broadcasting (fn (opName op) (getAttrs op))
                 (map (\<lambda>t. ([prod_list (fst t)], snd t)) ts))
              (Inr (ShapeV S))"
    by (simp only: eval_nary [OF tens unr two bound ev] A if_True eval_fast_path_A [OF ev bc])
qed

theorem scalar_like_fast_path_witness:
  "\<not> list_ex (\<lambda>operand. \<not> isa_TensorType (getType operand)) binary_operands
   \<and> list_ex (\<lambda>operand. isa_UnrankedTensorType (getType operand)) binary_operands
   \<and> 2 \<le> length binary_operands \<and> length binary_operands < 2 ^ 64
   \<and> map (eval add_fn id [TensorV [3] [10, 20, 30], TensorV [1] [1]]) binary_operands
       = map (\<lambda>t. Inr (TensorV (fst t) (snd t))) [([3], [10, 20, 30]), ([1], [1])]
   \<and> length binary_operands - 1 \<le> count_single [[3], [1]]
   \<and> broadcastShape [[3], [1]] = Some [3]
   \<and> eval_result add_fn id [TensorV [3] [10, 20, 30], TensorV [1] [1]]
        (ConvertUnrankedDynamicBroadcastNaryOp ''mhlo.add'' chlo_broadcast_add binary_operands)
      = Inr (TensorV [3] [11, 21, 31])"
proof -
  let ?env = "[TensorV [3] [10, 20, 30], TensorV [1] [1 :: int]]"
  let ?ts = "[([3 :: nat], [10, 20, 30 :: int]), ([1], [1])]"
  have tens: "\<not> list_ex (\<lambda>operand. \<not> isa_TensorType (getType operand)) binary_operands"
    by (simp add: binary_operands_def unranked_f32_def)
  have unr: "list_ex (\<lambda>operand. isa_UnrankedTensorType (getType operand)) binary_operands"
    by (simp add: binary_operands_def unranked_f32_def)
  have two: "2 \<le> length binary_operands" by (simp add: binary_operands_def)
  have bound: "length binary_operands < 2 ^ 64" by (simp add: binary_operands_def)
  have ev: "map (eval add_fn id ?env) binary_operands
            = map (\<lambda>t. Inr (TensorV (fst t) (snd t))) ?ts"
    by (simp add: binary_operands_def)
  have A': "length binary_operands - 1 \<le> count_single [[3], [1]]"
    by (simp add: binary_operands_def count_single_def)
  have bc': "broadcastShape [[3], [1]] = Some [3]" by code_simp
  have A: "length binary_operands - 1 \<le> count_single (map fst ?ts)
           \<and> broadcastShape (map fst ?ts) = Some [3]"
    using A' bc' by simp
  have ap: "apply_broadcasting (add_fn (opName chlo_broadcast_add) (getAttrs chlo_broadcast_add))
              (map (\<lambda>t. ([prod_list (fst t)], snd t)) ?ts)
            = Inr (TensorV [3] [11, 21, 31])"
    by code_simp
  from scalar_like_fast_path [OF tens unr two bound ev, of "''mhlo.add''" chlo_broadcast_add "[3]"] A
  have "eval_result add_fn id ?env
          (ConvertUnrankedDynamicBroadcastNaryOp ''mhlo.add'' chlo_broadcast_add binary_operands)
        = dynamic_reshape_sem
            (apply_broadcasting (add_fn (opName chlo_broadcast_add) (getAttrs chlo_broadcast_add))
               (map (\<lambda>t. ([prod_list (fst t)], snd t)) ?ts))
            (Inr (ShapeV [3]))"
    by blast
  then have e: "eval_result add_fn id ?env
          (ConvertUnrankedDynamicBroadcastNaryOp ''mhlo.add'' chlo_broadcast_add binary_operands)
        = Inr (TensorV [3] [11, 21, 31])"
    by (simp only: ap) (simp add: dynamic_reshape_sem_def)
  from tens unr two bound ev A' bc' e show ?thesis by (intro conjI)
qed

text \<open>
  Claim C5: when the first test fails and all operand shapes are equal at run time, the
  code emitted by the n-ary dispatch pattern takes the branch of the second test.  The
  operation of that branch is applied to the original operands themselves, so that it
  reaches no reshape beyond those the operands already contain, and the result is the
  direct elementwise application, of the operands' common shape.
\<close>

theorem equal_shapes_fast_path:
  assumes tens: "\<not> list_ex (\<lambda>operand. \<not> isa_TensorType (getType operand)) operands"
      and unr: "list_ex (\<lambda>operand. isa_UnrankedTensorType (getType operand)) operands"
      and two: "2 \<le> length operands"
      and bound: "length operands < 2 ^ 64"
      and ev: "map (eval fn mbs env) operands = map (\<lambda>t. Inr (TensorV (fst t) (snd t))) ts"
      and notA: "count_single (map fst ts) < length operands - 1"
      and same: "list_all (\<lambda>t. fst t = S) ts"
  shows "(\<exists>c1 r1 c2 r2.
            ConvertUnrankedDynamicBroadcastNaryOp hlo op operands
            = success
                (IfOp (getResultType op) c1 r1
                   (YieldOp
                      (IfOp (getResultType op) c2
                         (YieldOp (AdaptorCreateOp hlo (opName op) (getAttrs op)
                                     (getResultType op) operands))
                         r2)))
            \<and> eval fn mbs env c1 = Inr (BoolV False)
            \<and> eval fn mbs env c2 = Inr (BoolV True))
       \<and> reshape_count (AdaptorCreateOp hlo (opName op) (getAttrs op) (getResultType op) operands)
           = sum_list (map reshape_count operands)
       \<and> eval_result fn mbs env (ConvertUnrankedDynamicBroadcastNaryOp hlo op operands)
           = apply_elementwise (fn hlo (getAttrs op)) ts
       \<and> apply_elementwise (fn hlo (getAttrs op)) ts
           = Inr (TensorV S (map (\<lambda>i. fn hlo (getAttrs op) (map (\<lambda>t. snd t ! i) ts))
                               [0..<prod_list S]))"
proof -
  have n: "length operands = length ts" by (rule map_eq_length [OF ev])
  have ne: "ts \<noteq> []" using two n by auto
  have hd: "fst (hd ts) = S" using same ne by (cases ts) simp_all
  have same': "list_all (\<lambda>t. fst t = fst (hd ts)) ts" using same by (simp only: hd)
  have notA': "\<not> length operands - 1 \<le> count_single (map fst ts)" using notA by simp
  have c1: "eval fn mbs env (at_most_one_non_scalar_of operands) = Inr (BoolV False)"
    using eval_at_most_one_non_scalar [OF ev two bound] notA' by simp
  have c2: "eval fn mbs env (equal_shapes_of operands) = Inr (BoolV True)"
    using eval_equal_shapes [OF ev two] same' by simp
  show ?thesis
  proof (intro conjI)
    show "\<exists>c1 r1 c2 r2.
            ConvertUnrankedDynamicBroadcastNaryOp hlo op operands
            = success
                (IfOp (getResultType op) c1 r1
                   (YieldOp
                      (IfOp (getResultType op) c2
                         (YieldOp (AdaptorCreateOp hlo (opName op) (getAttrs op)
                                     (getResultType op) operands))
                         r2)))
            \<and> eval fn mbs env c1 = Inr (BoolV False)
            \<and> eval fn mbs env c2 = Inr (BoolV True)"
      using nary_success [OF tens unr two, of hlo op] c1 c2 by blast
  next
    show "reshape_count (AdaptorCreateOp hlo (opName op) (getAttrs op) (getResultType op) operands)
           = sum_list (map reshape_count operands)"
      by simp
  next
    show "eval_result fn mbs env (ConvertUnrankedDynamicBroadcastNaryOp hlo op operands)
           = apply_elementwise (fn hlo (getAttrs op)) ts"
      by (simp only: eval_nary [OF tens unr two bound ev] notA' same' if_False if_True)
  next
    show "apply_elementwise (fn hlo (getAttrs op)) ts
           = Inr (TensorV S (map (\<lambda>i. fn hlo (getAttrs op) (map (\<lambda>t. snd t ! i) ts))
                               [0..<prod_list S]))"
      by (rule apply_elementwise_same [OF ne same])
  qed
qed

theorem equal_shapes_fast_path_witness:
  "\<not> list_ex (\<lambda>operand. \<not> isa_TensorType (getType operand)) binary_operands
   \<and> list_ex (\<lambda>operand. isa_UnrankedTensorType (getType operand)) binary_operands
   \<and> 2 \<le> length binary_operands \<and> length binary_operands < 2 ^ 64
   \<and> map (eval add_fn id [TensorV [2, 3] [1, 2, 3, 4, 5, 6], TensorV [2, 3] [10, 20, 30, 40, 50, 60]])
         binary_operands
       = map (\<lambda>t. Inr (TensorV (fst t) (snd t)))
           [([2, 3], [1, 2, 3, 4, 5, 6]), ([2, 3], [10, 20, 30, 40, 50, 60])]
   \<and> count_single [[2, 3], [2, 3]] < length binary_operands - 1
   \<and> reshape_count
        (AdaptorCreateOp ''mhlo.add'' (opName chlo_broadcast_add) (getAttrs chlo_broadcast_add)
           (getResultType chlo_broadcast_add) binary_operands) = 0
   \<and> eval_result add_fn id [TensorV [2, 3] [1, 2, 3, 4, 5, 6], TensorV [2, 3] [10, 20, 30, 40, 50, 60]]
        (ConvertUnrankedDynamicBroadcastNaryOp ''mhlo.add'' chlo_broadcast_add binary_operands)
      = Inr (TensorV [2, 3] [11, 22, 33, 44, 55, 66])"
proof -
  let ?env = "[TensorV [2, 3] [1, 2, 3, 4, 5, 6], TensorV [2, 3] [10, 20, 30, 40, 50, 60 :: int]]"
  let ?ts = "[([2, 3 :: nat], [1, 2, 3, 4, 5, 6 :: int]), ([2, 3], [10, 20, 30, 40, 50, 60])]"
  have tens: "\<not> list_ex (\<lambda>operand. \<not> isa_TensorType (getType operand)) binary_operands"
    by (simp add: binary_operands_def unranked_f32_def)
  have unr: "list_ex (\<lambda>operand. isa_UnrankedTensorType (getType operand)) binary_operands"
    by (simp add: binary_operands_def unranked_f32_def)
  have two: "2 \<le> length binary_operands" by (simp add: binary_operands_def)
  have bound: "length binary_operands < 2 ^ 64" by (simp add: binary_operands_def)
  have ev: "map (eval add_fn id ?env) binary_operands
            = map (\<lambda>t. Inr (TensorV (fst t) (snd t))) ?ts"
    by (simp add: binary_operands_def)
  have notA': "count_single [[2, 3], [2, 3]] < length binary_operands - 1"
    by (simp add: binary_operands_def count_single_def)
  have notA: "count_single (map fst ?ts) < length binary_operands - 1"
    using notA' by simp
  have same: "list_all (\<lambda>t. fst t = [2, 3]) ?ts" by simp
  have rc0: "sum_list (map reshape_count binary_operands) = 0"
    by (simp add: binary_operands_def)
  have v: "map (\<lambda>i. add_fn ''mhlo.add'' (getAttrs chlo_broadcast_add) (map (\<lambda>t. snd t ! i) ?ts))
             [0..<prod_list [2, 3]] = [11, 22, 33, 44, 55, 66]"
    by code_simp
  note t = equal_shapes_fast_path [OF tens unr two bound ev notA same,
             of "''mhlo.add''" chlo_broadcast_add]
  note t2 = t [THEN conjunct2, THEN conjunct1]
  note t3 = t [THEN conjunct2, THEN conjunct2, THEN conjunct1]
  note t4 = t [THEN conjunct2, THEN conjunct2, THEN conjunct2]
  have rc: "reshape_count
        (AdaptorCreateOp ''mhlo.add'' (opName chlo_broadcast_add) (getAttrs chlo_broadcast_add)
           (getResultType chlo_broadcast_add) binary_operands) = 0"
    by (simp only: t2 rc0)
  have e: "eval_result add_fn id ?env
        (ConvertUnrankedDynamicBroadcastNaryOp ''mhlo.add'' chlo_broadcast_add binary_operands)
      = Inr (TensorV [2, 3] [11, 22, 33, 44, 55, 66])"
    by (simp only: t3 t4 v)
  from tens unr two bound ev notA' rc e show ?thesis by (intro conjI)
qed

text \<open>
  Claim C3: the rank ladder has one branch for each candidate rank from 1 up to the
  maximum, in this order, each guarded by the comparison of the greatest reduced rank with
  that candidate; the maximum is 8 when the operation has more than two operands and 5
  otherwise.
\<close>

theorem ladder_one_branch_per_rank:
  assumes "operands \<noteq> []"
  shows "ladder_branches_of (HandleBroadcastAndOp op operands)
       = map (\<lambda>r. (GreaterRankIsN (greater_rank_of operands) r,
                    createRankSpecializedBroadcastAndOp op (reshaped_operands_of operands)
                      (reduced_shapes_of operands) r))
           (if length operands > 2 then [1, 2, 3, 4, 5, 6, 7, 8] else [1, 2, 3, 4, 5])"
proof -
  have a: "[1..<Suc 8] = [1, 2, 3, 4, 5, 6, 7, 8::nat]" by (simp add: upt_rec)
  have b: "[1..<Suc 5] = [1, 2, 3, 4, 5::nat]" by (simp add: upt_rec)
  show ?thesis
    by (simp only: ladder_branches_of_Handle [OF assms] kMaxRankSpecialization_def a b
          if_distrib [of "\<lambda>k. [1..<Suc k]"])
qed

theorem ladder_one_branch_per_rank_witness:
  "binary_operands \<noteq> []
   \<and> ladder_branches_of (HandleBroadcastAndOp chlo_broadcast_add binary_operands)
      = map (\<lambda>r. (GreaterRankIsN (greater_rank_of binary_operands) r,
                   createRankSpecializedBroadcastAndOp chlo_broadcast_add
                     (reshaped_operands_of binary_operands)
                     (reduced_shapes_of binary_operands) r))
          [1, 2, 3, 4, 5]
   \<and> ternary_operands \<noteq> []
   \<and> ladder_branches_of (HandleBroadcastAndOp chlo_broadcast_add ternary_operands)
      = map (\<lambda>r. (GreaterRankIsN (greater_rank_of ternary_operands) r,
                   createRankSpecializedBroadcastAndOp chlo_broadcast_add
                     (reshaped_operands_of ternary_operands)
                     (reduced_shapes_of ternary_operands) r))
          [1, 2, 3, 4, 5, 6, 7, 8]"
proof -
  have b: "binary_operands \<noteq> []" by (simp add: binary_operands_def)
  have t: "ternary_operands \<noteq> []" by (simp add: ternary_operands_def)
  have lb: "\<not> 2 < length binary_operands" by (simp add: binary_operands_def)
  have lt: "2 < length ternary_operands" by (simp add: ternary_operands_def)
  from ladder_one_branch_per_rank [OF b, of chlo_broadcast_add]
       ladder_one_branch_per_rank [OF t, of chlo_broadcast_add] b t
  show ?thesis by (simp only: lb lt if_True if_False) blast
qed

text \<open>
  Claim C4: the branches of the ladder are tried in ascending order of their candidate
  rank, and the guard of the branch for candidate \<open>k\<close> holds exactly when the greatest rank
  \<open>r\<close> of the reduced shapes equals \<open>k\<close>.  So for \<open>r\<close> between 1 and the maximum exactly one
  guard holds, the ladder runs the branch for \<open>r\<close>, and the result is that branch's value
  reshaped to the broadcast shape of the operands.  That value is the operation applied
  with broadcasting to the operands reshaped to their reduced shapes extended to rank \<open>r\<close>,
  each of which has exactly \<open>r\<close> dimensions, by an operation whose result type is ranked
  with \<open>r\<close> dynamic dimensions.  When the reduced shapes broadcast in the same
  way as the operand shapes, which is what \<^verbatim>\<open>chlo.minimum_broadcast_shapes\<close> is for, the
  result is the result of the broadcasting operation applied directly to the original
  operands, for the ladder by itself and for the code of the whole pattern when neither of
  its two earlier tests holds.
\<close>

theorem rank_ladder_dispatch:
  assumes ev: "map (eval fn mbs env) operands = map (\<lambda>t. Inr (TensorV (fst t) (snd t))) ts"
      and ne: "operands \<noteq> []"
      and len: "length (mbs (map fst ts)) = length ts"
      and pres: "map prod_list (mbs (map fst ts)) = map (\<lambda>t. prod_list (fst t)) ts"
      and reads: "read_positions (mbs (map fst ts)) = read_positions (map fst ts)"
      and bc: "broadcastShape (map fst ts) = Some S"
      and r: "max_rank (mbs (map fst ts)) = r"
      and r1: "1 \<le> r" and rM: "r \<le> (if 2 < length operands then 8 else 5)"
  shows "map (\<lambda>b. eval fn mbs env (fst b)) (ladder_branches_of (HandleBroadcastAndOp op operands))
         = map (\<lambda>k. Inr (BoolV (k = r))) [1..<Suc (if 2 < length operands then 8 else 5)]
       \<and> eval_result fn mbs env (HandleBroadcastAndOp op operands)
         = dynamic_reshape_sem
             (eval_region fn mbs env
                (snd (ladder_branches_of (HandleBroadcastAndOp op operands) ! (r - 1))))
             (Inr (ShapeV S))
       \<and> eval_region fn mbs env
            (snd (ladder_branches_of (HandleBroadcastAndOp op operands) ! (r - 1)))
         = apply_broadcasting (fn (opName op) (getAttrs op))
             (map (\<lambda>p. (pad_to_rank r (fst p), snd p)) (zip (mbs (map fst ts)) (map snd ts)))
       \<and> list_all (\<lambda>p. length (fst p) = r)
             (map (\<lambda>p. (pad_to_rank r (fst p), snd p)) (zip (mbs (map fst ts)) (map snd ts)))
       \<and> eval_result fn mbs env (HandleBroadcastAndOp op operands)
         = apply_broadcasting (fn (opName op) (getAttrs op)) ts
       \<and> (\<not> list_ex (\<lambda>operand. \<not> isa_TensorType (getType operand)) operands
          \<and> list_ex (\<lambda>operand. isa_UnrankedTensorType (getType operand)) operands
          \<and> 2 \<le> length operands \<and> length operands < 2 ^ 64
          \<and> count_single (map fst ts) < length operands - 1
          \<and> \<not> list_all (\<lambda>t. fst t = fst (hd ts)) ts \<longrightarrow>
          eval_result fn mbs env (ConvertUnrankedDynamicBroadcastNaryOp hlo op operands)
          = apply_broadcasting (fn (opName op) (getAttrs op)) ts)
       \<and> (\<exists>vs. snd (ladder_branches_of (HandleBroadcastAndOp op operands) ! (r - 1))
                 = YieldOp
                     (CastOp (UnrankedTensorType (getElementType (getResultType op)))
                        (CreateOp (opName op)
                           (RankedTensorType (replicate r kDynamicSize)
                              (getElementType (getResultType op)))
                           vs (getAttrs op))))"
proof -
  have M: "kMaxRankSpecialization operands = (if 2 < length operands then 8 else 5)"
    by (simp add: kMaxRankSpecialization_def)
  have rM': "r \<le> kMaxRankSpecialization operands" using rM by (simp only: M)
  have g: "eval fn mbs env (greater_rank_of operands) = Inr (IndexV (int r))"
    using eval_greater_rank [OF ev len ne] by (simp only: r)
  have guards: "map (\<lambda>b. eval fn mbs env (fst b))
                  (ladder_branches_of (HandleBroadcastAndOp op operands))
         = map (\<lambda>k. Inr (BoolV (k = r))) [1..<Suc (kMaxRankSpecialization operands)]"
    by (simp only: ladder_branches_of_Handle [OF ne] map_map comp_def fst_conv
          eval_GreaterRankIsN [OF g]) (auto simp: eq_commute)
  have nth: "ladder_branches_of (HandleBroadcastAndOp op operands) ! (r - 1)
             = (GreaterRankIsN (greater_rank_of operands) r,
                createRankSpecializedBroadcastAndOp op (reshaped_operands_of operands)
                  (reduced_shapes_of operands) r)"
  proof -
    have lt: "1 + (r - 1) < Suc (kMaxRankSpecialization operands)"
      using r1 rM' by linarith
    have "[1..<Suc (kMaxRankSpecialization operands)] ! (r - 1) = 1 + (r - 1)"
      by (rule nth_upt [OF lt])
    then have k: "[1..<Suc (kMaxRankSpecialization operands)] ! (r - 1) = r"
      using r1 by linarith
    have i: "r - 1 < length [1..<Suc (kMaxRankSpecialization operands)]"
      using r1 rM' by (simp del: upt_Suc)
    show ?thesis
      by (simp only: ladder_branches_of_Handle [OF ne] nth_map [OF i] k)
  qed
  have res: "eval_result fn mbs env (HandleBroadcastAndOp op operands)
         = dynamic_reshape_sem
             (eval_region fn mbs env
                (createRankSpecializedBroadcastAndOp op (reshaped_operands_of operands)
                  (reduced_shapes_of operands) r))
             (Inr (ShapeV S))"
    using r1 rM'
    by (simp only: HandleBroadcastAndOp_ladder_of [OF ne] eval_result.simps
          eval_ladder_of [OF ev ne len bc] r) simp
  have rk: "list_all (\<lambda>s. length s \<le> r) (mbs (map fst ts))"
    using max_rank_bound [of "mbs (map fst ts)"] by (simp only: r)
  have body: "eval_region fn mbs env
                (createRankSpecializedBroadcastAndOp op (reshaped_operands_of operands)
                  (reduced_shapes_of operands) r)
         = apply_broadcasting (fn (opName op) (getAttrs op))
             (map (\<lambda>p. (pad_to_rank r (fst p), snd p)) (zip (mbs (map fst ts)) (map snd ts)))"
    by (rule eval_rank_specialized [OF eval_reshaped_operands [OF ev len pres]
          eval_reduced_shapes [OF ev len] _ rk]) (simp add: len)
  have ranks: "list_all (\<lambda>p. length (fst p) = r)
             (map (\<lambda>p. (pad_to_rank r (fst p), snd p)) (zip (mbs (map fst ts)) (map snd ts)))"
    using rk by (auto simp: list_all_iff length_pad_to_rank dest: set_zip_leftD)
  have n: "length operands = length ts" by (rule map_eq_length [OF ev])
  have tne: "ts \<noteq> []" using ne n by auto
  have direct: "eval_result fn mbs env (HandleBroadcastAndOp op operands)
         = apply_broadcasting (fn (opName op) (getAttrs op)) ts"
    using reduced_broadcast_equals_direct [OF bc len tne reads, of "fn (opName op) (getAttrs op)"]
    by (simp only: res body r)
  have whole: "eval_result fn mbs env (ConvertUnrankedDynamicBroadcastNaryOp hlo op operands)
          = apply_broadcasting (fn (opName op) (getAttrs op)) ts"
    if a: "\<not> list_ex (\<lambda>operand. \<not> isa_TensorType (getType operand)) operands
          \<and> list_ex (\<lambda>operand. isa_UnrankedTensorType (getType operand)) operands
          \<and> 2 \<le> length operands \<and> length operands < 2 ^ 64
          \<and> count_single (map fst ts) < length operands - 1
          \<and> \<not> list_all (\<lambda>t. fst t = fst (hd ts)) ts"
  proof -
    from a have tens: "\<not> list_ex (\<lambda>operand. \<not> isa_TensorType (getType operand)) operands"
      and unr: "list_ex (\<lambda>operand. isa_UnrankedTensorType (getType operand)) operands"
      and two: "2 \<le> length operands" and bound: "length operands < 2 ^ 64"
      and notA: "\<not> length operands - 1 \<le> count_single (map fst ts)"
      and notB: "\<not> list_all (\<lambda>t. fst t = fst (hd ts)) ts"
      by simp_all
    have "eval fn mbs env (ladder_of op operands)
          = eval_result fn mbs env (HandleBroadcastAndOp op operands)"
      by (simp only: HandleBroadcastAndOp_ladder_of [OF ne] eval_result.simps)
    then show ?thesis
      by (simp only: eval_nary [OF tens unr two bound ev] notA notB if_False direct)
  qed
  have static: "\<exists>vs. createRankSpecializedBroadcastAndOp op (reshaped_operands_of operands)
                       (reduced_shapes_of operands) r
                 = YieldOp
                     (CastOp (UnrankedTensorType (getElementType (getResultType op)))
                        (CreateOp (opName op)
                           (RankedTensorType (replicate r kDynamicSize)
                              (getElementType (getResultType op)))
                           vs (getAttrs op)))"
    by (simp add: createRankSpecializedBroadcastAndOp_def Let_def)
  show ?thesis
    using whole static
    by (simp only: guards nth snd_conv res body M ranks direct [unfolded res body]) blast
qed

theorem rank_ladder_dispatch_witness:
  "map (eval add_fn (\<lambda>ss. [[4, 3], [3]])
          [TensorV [2, 2, 3] [10, 20, 30, 40, 50, 60, 70, 80, 90, 100, 110, 120],
           TensorV [3] [1, 2, 3]])
       binary_operands
     = map (\<lambda>t. Inr (TensorV (fst t) (snd t)))
         [([2, 2, 3], [10, 20, 30, 40, 50, 60, 70, 80, 90, 100, 110, 120]), ([3], [1, 2, 3])]
   \<and> broadcastShape [[2, 2, 3], [3]] = Some [2, 2, 3]
   \<and> read_positions [[4, 3], [3]] = read_positions [[2, 2, 3], [3]]
   \<and> max_rank [[4, 3], [3]] = 2
   \<and> map (\<lambda>b. eval add_fn (\<lambda>ss. [[4, 3], [3]])
                 [TensorV [2, 2, 3] [10, 20, 30, 40, 50, 60, 70, 80, 90, 100, 110, 120],
                  TensorV [3] [1, 2, 3]]
                 (fst b))
        (ladder_branches_of (HandleBroadcastAndOp chlo_broadcast_add binary_operands))
      = [Inr (BoolV False), Inr (BoolV True), Inr (BoolV False), Inr (BoolV False),
         Inr (BoolV False)]
   \<and> eval_result add_fn (\<lambda>ss. [[4, 3], [3]])
        [TensorV [2, 2, 3] [10, 20, 30, 40, 50, 60, 70, 80, 90, 100, 110, 120],
         TensorV [3] [1, 2, 3]]
        (HandleBroadcastAndOp chlo_broadcast_add binary_operands)
      = Inr (TensorV [2, 2, 3] [11, 22, 33, 41, 52, 63, 71, 82, 93, 101, 112, 123])
   \<and> eval_result add_fn (\<lambda>ss. [[4, 3], [3]])
        [TensorV [2, 2, 3] [10, 20, 30, 40, 50, 60, 70, 80, 90, 100, 110, 120],
         TensorV [3] [1, 2, 3]]
        (ConvertUnrankedDynamicBroadcastNaryOp ''mhlo.add'' chlo_broadcast_add binary_operands)
      = Inr (TensorV [2, 2, 3] [11, 22, 33, 41, 52, 63, 71, 82, 93, 101, 112, 123])"
proof -
  let ?mbs = "\<lambda>ss :: nat list list. [[4, 3], [3 :: nat]]"
  let ?env = "[TensorV [2, 2, 3] [10, 20, 30, 40, 50, 60, 70, 80, 90, 100, 110, 120],
               TensorV [3] [1, 2, 3 :: int]]"
  let ?ts = "[([2, 2, 3 :: nat], [10, 20, 30, 40, 50, 60, 70, 80, 90, 100, 110, 120 :: int]),
              ([3], [1, 2, 3])]"
  have ev: "map (eval add_fn ?mbs ?env) binary_operands
            = map (\<lambda>t. Inr (TensorV (fst t) (snd t))) ?ts"
    by (simp add: binary_operands_def)
  have ne: "binary_operands \<noteq> []" by (simp add: binary_operands_def)
  have len: "length (?mbs (map fst ?ts)) = length ?ts" by simp
  have pres: "map prod_list (?mbs (map fst ?ts)) = map (\<lambda>t. prod_list (fst t)) ?ts" by simp
  have reads': "read_positions [[4, 3], [3]] = read_positions [[2, 2, 3], [3]]"
    by code_simp
  have reads: "read_positions (?mbs (map fst ?ts)) = read_positions (map fst ?ts)"
    using reads' by simp
  have bc': "broadcastShape [[2, 2, 3], [3]] = Some [2, 2, 3]" by code_simp
  have bc: "broadcastShape (map fst ?ts) = Some [2, 2, 3]" using bc' by simp
  have mr': "max_rank [[4, 3], [3]] = 2" by (simp add: max_rank_def)
  have mr: "max_rank (?mbs (map fst ?ts)) = 2" using mr' by simp
  have r1: "1 \<le> (2::nat)" by simp
  have rM: "2 \<le> (if 2 < length binary_operands then 8 else 5 :: nat)"
    by (simp add: binary_operands_def)
  have lb: "\<not> 2 < length binary_operands" by (simp add: binary_operands_def)
  have pre: "\<not> list_ex (\<lambda>operand. \<not> isa_TensorType (getType operand)) binary_operands
          \<and> list_ex (\<lambda>operand. isa_UnrankedTensorType (getType operand)) binary_operands
          \<and> 2 \<le> length binary_operands \<and> length binary_operands < 2 ^ 64
          \<and> count_single (map fst ?ts) < length binary_operands - 1
          \<and> \<not> list_all (\<lambda>t. fst t = fst (hd ?ts)) ?ts"
    by (simp add: binary_operands_def unranked_f32_def count_single_def)
  have ap: "apply_broadcasting (add_fn (opName chlo_broadcast_add) (getAttrs chlo_broadcast_add))
              ?ts
            = Inr (TensorV [2, 2, 3] [11, 22, 33, 41, 52, 63, 71, 82, 93, 101, 112, 123])"
    by code_simp
  have up: "[1..<Suc 5] = [1, 2, 3, 4, 5]" by (simp add: upt_rec)
  note t = rank_ladder_dispatch [OF ev ne len pres reads bc mr r1 rM,
             of chlo_broadcast_add "''mhlo.add''"]
  note t1 = t [THEN conjunct1]
  note t5 = t [THEN conjunct2, THEN conjunct2, THEN conjunct2, THEN conjunct2, THEN conjunct1]
  note t6 = t [THEN conjunct2, THEN conjunct2, THEN conjunct2, THEN conjunct2, THEN conjunct2,
               THEN conjunct1, rule_format, OF pre]
  have g: "map (\<lambda>b. eval add_fn ?mbs ?env (fst b))
        (ladder_branches_of (HandleBroadcastAndOp chlo_broadcast_add binary_operands))
      = [Inr (BoolV False), Inr (BoolV True), Inr (BoolV False), Inr (BoolV False),
         Inr (BoolV False)]"
    by (simp only: t1 lb if_False up list.map) simp
  have e: "eval_result add_fn ?mbs ?env (HandleBroadcastAndOp chlo_broadcast_add binary_operands)
      = Inr (TensorV [2, 2, 3] [11, 22, 33, 41, 52, 63, 71, 82, 93, 101, 112, 123])"
    by (simp only: t5 ap)
  have w: "eval_result add_fn ?mbs ?env
        (ConvertUnrankedDynamicBroadcastNaryOp ''mhlo.add'' chlo_broadcast_add binary_operands)
      = Inr (TensorV [2, 2, 3] [11, 22, 33, 41, 52, 63, 71, 82, 93, 101, 112, 123])"
    by (simp only: t6 ap)
  from ev bc' reads' mr' g e w show ?thesis by (intro conjI)
qed

text \<open>
  Claim C2: when the greatest rank of the reduced operand shapes exceeds the maximum of the
  ladder (5 for two operands, 8 for more), the emitted code ends in the failure of the
  assertion of the last else-branch, whose message names that maximum, and gives no tensor.
  This holds for the ladder by itself and for the code of the whole pattern, when neither
  of its two earlier tests holds.
\<close>

theorem rank_above_bound_asserts:
  assumes ev: "map (eval fn mbs env) operands = map (\<lambda>t. Inr (TensorV (fst t) (snd t))) ts"
      and len: "length (mbs (map fst ts)) = length ts"
      and bc: "broadcastShape (map fst ts) = Some S"
      and big: "(if 2 < length operands then 8 else 5) < max_rank (mbs (map fst ts))"
  shows "(operands \<noteq> [] \<longrightarrow>
          eval_result fn mbs env (HandleBroadcastAndOp op operands)
          = Inl (AssertionFailure
                  (if 2 < length operands
                   then ''Input for dynamic binary op lowering was of a rank greater than 8''
                   else ''Input for dynamic binary op lowering was of a rank greater than 5'')))
       \<and> (\<not> list_ex (\<lambda>operand. \<not> isa_TensorType (getType operand)) operands
          \<and> list_ex (\<lambda>operand. isa_UnrankedTensorType (getType operand)) operands
          \<and> 2 \<le> length operands \<and> length operands < 2 ^ 64
          \<and> count_single (map fst ts) < length operands - 1
          \<and> \<not> list_all (\<lambda>t. fst t = fst (hd ts)) ts \<longrightarrow>
          eval_result fn mbs env (ConvertUnrankedDynamicBroadcastNaryOp hlo op operands)
          = Inl (AssertionFailure
                  (if 2 < length operands
                   then ''Input for dynamic binary op lowering was of a rank greater than 8''
                   else ''Input for dynamic binary op lowering was of a rank greater than 5'')))"
proof -
  have s8: "to_string 8 = ''8''" by code_simp
  have s5: "to_string 5 = ''5''" by code_simp
  have big': "\<not> max_rank (mbs (map fst ts)) \<le> kMaxRankSpecialization operands"
    using big by (simp add: kMaxRankSpecialization_def split: if_splits)
  have l: "eval fn mbs env (ladder_of op operands)
           = Inl (AssertionFailure
                  (if 2 < length operands
                   then ''Input for dynamic binary op lowering was of a rank greater than 8''
                   else ''Input for dynamic binary op lowering was of a rank greater than 5''))"
    if ne: "operands \<noteq> []"
    using big' by (simp add: eval_ladder_of [OF ev ne len bc] kMaxRankSpecialization_def s8 s5)
  show ?thesis
  proof (intro conjI impI)
    assume ne: "operands \<noteq> []"
    show "eval_result fn mbs env (HandleBroadcastAndOp op operands)
          = Inl (AssertionFailure
                  (if 2 < length operands
                   then ''Input for dynamic binary op lowering was of a rank greater than 8''
                   else ''Input for dynamic binary op lowering was of a rank greater than 5''))"
      by (simp only: HandleBroadcastAndOp_ladder_of [OF ne] eval_result.simps l [OF ne])
  next
    assume a: "\<not> list_ex (\<lambda>operand. \<not> isa_TensorType (getType operand)) operands
          \<and> list_ex (\<lambda>operand. isa_UnrankedTensorType (getType operand)) operands
          \<and> 2 \<le> length operands \<and> length operands < 2 ^ 64
          \<and> count_single (map fst ts) < length operands - 1
          \<and> \<not> list_all (\<lambda>t. fst t = fst (hd ts)) ts"
    then have tens: "\<not> list_ex (\<lambda>operand. \<not> isa_TensorType (getType operand)) operands"
      and unr: "list_ex (\<lambda>operand. isa_UnrankedTensorType (getType operand)) operands"
      and two: "2 \<le> length operands" and bound: "length operands < 2 ^ 64"
      and notA: "\<not> length operands - 1 \<le> count_single (map fst ts)"
      and notB: "\<not> list_all (\<lambda>t. fst t = fst (hd ts)) ts"
      by simp_all
    from two have ne: "operands \<noteq> []" by auto
    show "eval_result fn mbs env (ConvertUnrankedDynamicBroadcastNaryOp hlo op operands)
          = Inl (AssertionFailure
                  (if 2 < length operands
                   then ''Input for dynamic binary op lowering was of a rank greater than 8''
                   else ''Input for dynamic binary op lowering was of a rank greater than 5''))"
      by (simp only: eval_nary [OF tens unr two bound ev] notA notB if_False l [OF ne])
  qed
qed

theorem rank_above_bound_asserts_witness:
  "map (eval add_fn id
          [TensorV [2, 1, 2, 1, 2, 1] [1, 2, 3, 4, 5, 6, 7, 8],
           TensorV [1, 2, 1, 2, 1, 2] [10, 20, 30, 40, 50, 60, 70, 80]]) binary_operands
     = map (\<lambda>t. Inr (TensorV (fst t) (snd t)))
         [([2, 1, 2, 1, 2, 1], [1, 2, 3, 4, 5, 6, 7, 8]),
          ([1, 2, 1, 2, 1, 2], [10, 20, 30, 40, 50, 60, 70, 80])]
   \<and> broadcastShape [[2, 1, 2, 1, 2, 1], [1, 2, 1, 2, 1, 2]] = Some [2, 2, 2, 2, 2, 2]
   \<and> max_rank (id [[2, 1, 2, 1, 2, 1], [1, 2, 1, 2, 1, 2]]) = 6
   \<and> eval_result add_fn id
        [TensorV [2, 1, 2, 1, 2, 1] [1, 2, 3, 4, 5, 6, 7, 8],
         TensorV [1, 2, 1, 2, 1, 2] [10, 20, 30, 40, 50, 60, 70, 80]]
        (ConvertUnrankedDynamicBroadcastNaryOp ''mhlo.add'' chlo_broadcast_add binary_operands)
      = Inl (AssertionFailure
               ''Input for dynamic binary op lowering was of a rank greater than 5'')"
proof -
  let ?env = "[TensorV [2, 1, 2, 1, 2, 1] [1, 2, 3, 4, 5, 6, 7, 8],
               TensorV [1, 2, 1, 2, 1, 2] [10, 20, 30, 40, 50, 60, 70, 80 :: int]]"
  let ?ts = "[([2, 1, 2, 1, 2, 1 :: nat], [1, 2, 3, 4, 5, 6, 7, 8 :: int]),
              ([1, 2, 1, 2, 1, 2], [10, 20, 30, 40, 50, 60, 70, 80])]"
  have ev: "map (eval add_fn id ?env) binary_operands
            = map (\<lambda>t. Inr (TensorV (fst t) (snd t))) ?ts"
    by (simp add: binary_operands_def)
  have len: "length (id (map fst ?ts)) = length ?ts" by simp
  have bc': "broadcastShape [[2, 1, 2, 1, 2, 1], [1, 2, 1, 2, 1, 2]] = Some [2, 2, 2, 2, 2, 2]"
    by code_simp
  have bc: "broadcastShape (map fst ?ts) = Some [2, 2, 2, 2, 2, 2]"
    using bc' by simp
  have mr: "max_rank (id [[2, 1, 2, 1, 2, 1], [1, 2, 1, 2, 1, 2]]) = 6"
    by (simp add: max_rank_def)
  have big: "(if 2 < length binary_operands then 8 else 5) < max_rank (id (map fst ?ts))"
    using mr by (simp add: binary_operands_def)
  have pre: "\<not> list_ex (\<lambda>operand. \<not> isa_TensorType (getType operand)) binary_operands
          \<and> list_ex (\<lambda>operand. isa_UnrankedTensorType (getType operand)) binary_operands
          \<and> 2 \<le> length binary_operands \<and> length binary_operands < 2 ^ 64
          \<and> count_single (map fst ?ts) < length binary_operands - 1
          \<and> \<not> list_all (\<lambda>t. fst t = fst (hd ?ts)) ?ts"
    by (simp add: binary_operands_def unranked_f32_def count_single_def)
  have lb: "\<not> 2 < length binary_operands" by (simp add: binary_operands_def)
  from rank_above_bound_asserts [OF ev len bc big, of chlo_broadcast_add "''mhlo.add''"] pre
  have "eval_result add_fn id ?env
          (ConvertUnrankedDynamicBroadcastNaryOp ''mhlo.add'' chlo_broadcast_add binary_operands)
        = Inl (AssertionFailure
                 (if 2 < length binary_operands
                  then ''Input for dynamic binary op lowering was of a rank greater than 8''
                  else ''Input for dynamic binary op lowering was of a rank greater than 5''))"
    by blast
  then have "eval_result add_fn id ?env
          (ConvertUnrankedDynamicBroadcastNaryOp ''mhlo.add'' chlo_broadcast_add binary_operands)
        = Inl (AssertionFailure
                 ''Input for dynamic binary op lowering was of a rank greater than 5'')"
    by (simp only: lb if_False)
  with ev bc' mr show ?thesis by (intro conjI)
qed

subsection \<open>The shape restored by the flatten-apply-restore pattern\<close>

text \<open>
  For an operation with two operands the shape that the final reshape restores is the
  result of \<^verbatim>\<open>shape.any\<close> on the operand shapes; on shapes \<open>[1, 2]\<close> and \<open>[2, 1]\<close> it is
  \<open>[1, 2]\<close>, while the broadcast combination of these shapes is \<open>[2, 2]\<close>.
\<close>

theorem restore_shape_not_broadcast:
  "output_shape (ElementwiseOpConversion mhlo_add)
     = Some (AnyOp [ShapeOfOp (Arg 0 unranked_f32), ShapeOfOp (Arg 1 unranked_f32)])
   \<and> eval add_fn id [TensorV [1, 2] [10, 20], TensorV [2, 1] [1, 2]]
        (AnyOp [ShapeOfOp (Arg 0 unranked_f32), ShapeOfOp (Arg 1 unranked_f32)])
      = Inr (ShapeV [1, 2])
   \<and> broadcastShape [[1, 2], [2, 1]] = Some [2, 2]"
  by code_simp

text \<open>
  Claim C8, amended: when the flatten-apply-restore pattern rewrites an operation whose
  number of operands is not one, the shape used to restore the result, whose element count
  is also the length every operand is flattened to, is the result of \<^verbatim>\<open>shape.any\<close> on all
  operand shapes; it is the operands' common shape whenever they all have one shape.
\<close>

theorem restore_shape_is_any:
  assumes unr: "list_ex (\<lambda>operand. isa_UnrankedTensorType (getType operand)) (getOperands op)"
      and many: "length (getOperands op) \<noteq> 1"
  shows "output_shape (ElementwiseOpConversion op)
           = Some (AnyOp (map ShapeOfOp (getOperands op)))
       \<and> length (flat_operands (ElementwiseOpConversion op)) = length (getOperands op)
       \<and> list_all
            (\<lambda>v. reshape_shape v
                  = Some (FromElementsOp (NumElementsOp (AnyOp (map ShapeOfOp (getOperands op))))))
            (flat_operands (ElementwiseOpConversion op))
       \<and> (map (eval fn mbs env) (getOperands op) = map (\<lambda>t. Inr (TensorV (fst t) (snd t))) ts
            \<and> list_all (\<lambda>t. fst t = S) ts \<longrightarrow>
          eval fn mbs env (AnyOp (map ShapeOfOp (getOperands op))) = Inr (ShapeV S))"
proof (intro conjI impI)
  show "output_shape (ElementwiseOpConversion op)
           = Some (AnyOp (map ShapeOfOp (getOperands op)))"
    using unr many by (simp add: ElementwiseOpConversion_def Let_def)
  show "length (flat_operands (ElementwiseOpConversion op)) = length (getOperands op)"
    using unr many by (simp add: ElementwiseOpConversion_def Let_def)
  show "list_all
            (\<lambda>v. reshape_shape v
                  = Some (FromElementsOp (NumElementsOp (AnyOp (map ShapeOfOp (getOperands op))))))
            (flat_operands (ElementwiseOpConversion op))"
    using unr many by (simp add: ElementwiseOpConversion_def Let_def list_all_iff)
next
  assume a: "map (eval fn mbs env) (getOperands op) = map (\<lambda>t. Inr (TensorV (fst t) (snd t))) ts
            \<and> list_all (\<lambda>t. fst t = S) ts"
  then have ev: "map (eval fn mbs env) (getOperands op)
                 = map (\<lambda>t. Inr (TensorV (fst t) (snd t))) ts"
    and same: "list_all (\<lambda>t. fst t = S) ts" by simp_all
  from unr have "getOperands op \<noteq> []" by auto
  with map_eq_length [OF ev] have ne: "ts \<noteq> []" by auto
  from flat_shape_eval [OF ev ne same] many
  show "eval fn mbs env (AnyOp (map ShapeOfOp (getOperands op))) = Inr (ShapeV S)"
    by (simp del: eval.simps)
qed

theorem restore_shape_is_any_witness:
  "list_ex (\<lambda>operand. isa_UnrankedTensorType (getType operand)) (getOperands mhlo_add)
   \<and> length (getOperands mhlo_add) \<noteq> 1
   \<and> output_shape (ElementwiseOpConversion mhlo_add)
       = Some (AnyOp (map ShapeOfOp (getOperands mhlo_add)))
   \<and> map (eval add_fn id [TensorV [2, 3] [1, 2, 3, 4, 5, 6], TensorV [2, 3] [10, 20, 30, 40, 50, 60]])
         (getOperands mhlo_add)
       = map (\<lambda>t. Inr (TensorV (fst t) (snd t)))
           [([2, 3], [1, 2, 3, 4, 5, 6]), ([2, 3], [10, 20, 30, 40, 50, 60])]
   \<and> list_all (\<lambda>t. fst t = [2, 3])
         [([2, 3 :: nat], [1, 2, 3, 4, 5, 6 :: int]), ([2, 3], [10, 20, 30, 40, 50, 60])]
   \<and> eval add_fn id [TensorV [2, 3] [1, 2, 3, 4, 5, 6], TensorV [2, 3] [10, 20, 30, 40, 50, 60]]
        (AnyOp (map ShapeOfOp (getOperands mhlo_add)))
       = Inr (ShapeV [2, 3])"
proof -
  let ?env = "[TensorV [2, 3] [1, 2, 3, 4, 5, 6], TensorV [2, 3] [10, 20, 30, 40, 50, 60 :: int]]"
  let ?ts = "[([2, 3 :: nat], [1, 2, 3, 4, 5, 6 :: int]), ([2, 3], [10, 20, 30, 40, 50, 60])]"
  have unr: "list_ex (\<lambda>operand. isa_UnrankedTensorType (getType operand)) (getOperands mhlo_add)"
    by (simp add: mhlo_add_def unranked_f32_def)
  have many: "length (getOperands mhlo_add) \<noteq> 1" by (simp add: mhlo_add_def)
  have ev: "map (eval add_fn id ?env) (getOperands mhlo_add)
            = map (\<lambda>t. Inr (TensorV (fst t) (snd t))) ?ts"
    by (simp add: mhlo_add_def)
  have same: "list_all (\<lambda>t. fst t = [2, 3]) ?ts" by simp
  note t = restore_shape_is_any [OF unr many, of add_fn id ?env ?ts "[2, 3]"]
  note t1 = t [THEN conjunct1]
  note t4 = t [THEN conjunct2, THEN conjunct2, THEN conjunct2, rule_format, OF conjI [OF ev same]]
  from unr many t1 ev same t4 show ?thesis by (intro conjI)
qed

subsection \<open>Attributes of the created operations\<close>

text \<open>
  Claim C10: every operation that a pattern creates with the pattern's own operation type
  carries the name and exactly the attribute list of the replaced operation, so that every
  attribute name has the same value on both.  In the replacement of each of the three
  patterns, the created operations other than those already inside the operands are the
  flattened elementwise operation, the rank-1 operation of the scalar-broadcast pattern,
  the rank-1 operation of the first fast path and one operation in each ladder branch.
\<close>

theorem created_ops_carry_attributes:
  "(ElementwiseOpConversion op = success v1 \<longrightarrow>
      (opName op, getAttrs op) \<in> set (created_ops v1)
      \<and> set (created_ops v1)
          \<subseteq> insert (opName op, getAttrs op) (operand_ops (getOperands op)))
   \<and> (ConvertUnrankedScalarDynamicBroadcastBinaryOp op operands = success v2 \<longrightarrow>
      (opName op, getAttrs op) \<in> set (created_ops v2)
      \<and> set (created_ops v2) \<subseteq> insert (opName op, getAttrs op) (operand_ops operands))
   \<and> (ConvertUnrankedDynamicBroadcastNaryOp hlo op operands = success v3 \<longrightarrow>
      (opName op, getAttrs op) \<in> set (created_ops v3)
      \<and> set (created_ops v3) \<subseteq> insert (opName op, getAttrs op) (operand_ops operands))
   \<and> (operands \<noteq> [] \<longrightarrow>
      list_all (\<lambda>b. (opName op, getAttrs op) \<in> set (created_ops_region (snd b))
                   \<and> set (created_ops_region (snd b))
                       \<subseteq> insert (opName op, getAttrs op) (operand_ops operands))
        (ladder_branches_of (HandleBroadcastAndOp op operands)))"
proof (intro conjI impI)
  assume "ElementwiseOpConversion op = success v1"
  then show "(opName op, getAttrs op) \<in> set (created_ops v1)"
    and "set (created_ops v1)
          \<subseteq> insert (opName op, getAttrs op) (operand_ops (getOperands op))"
    using created_elementwise by blast+
next
  assume "ConvertUnrankedScalarDynamicBroadcastBinaryOp op operands = success v2"
  then show "(opName op, getAttrs op) \<in> set (created_ops v2)"
    and "set (created_ops v2) \<subseteq> insert (opName op, getAttrs op) (operand_ops operands)"
    using created_scalar by blast+
next
  assume "ConvertUnrankedDynamicBroadcastNaryOp hlo op operands = success v3"
  then show "(opName op, getAttrs op) \<in> set (created_ops v3)"
    and "set (created_ops v3) \<subseteq> insert (opName op, getAttrs op) (operand_ops operands)"
    using created_nary by blast+
next
  assume ne: "operands \<noteq> []"
  have b: "set (created_ops_region
                 (createRankSpecializedBroadcastAndOp op (reshaped_operands_of operands)
                    (reduced_shapes_of operands) r))
           \<subseteq> insert (opName op, getAttrs op) (operand_ops operands)" for r
    using created_rank_specialized [of op "reshaped_operands_of operands"
            "reduced_shapes_of operands" r]
          created_reshaped_operands [of operands] created_reduced_shapes [of operands]
    by blast
  show "list_all (\<lambda>b. (opName op, getAttrs op) \<in> set (created_ops_region (snd b))
                   \<and> set (created_ops_region (snd b))
                       \<subseteq> insert (opName op, getAttrs op) (operand_ops operands))
        (ladder_branches_of (HandleBroadcastAndOp op operands))"
    unfolding ladder_branches_of_Handle [OF ne] list_all_iff
    using b created_rank_specialized_mem by (auto simp del: upt_Suc)
qed

theorem created_ops_carry_attributes_witness:
  "(\<exists>v1. ElementwiseOpConversion chlo_broadcast_add = success v1
         \<and> (opName chlo_broadcast_add, getAttrs chlo_broadcast_add) \<in> set (created_ops v1)
         \<and> set (created_ops v1)
             \<subseteq> insert (opName chlo_broadcast_add, getAttrs chlo_broadcast_add)
                  (operand_ops (getOperands chlo_broadcast_add)))
   \<and> (\<exists>v2. ConvertUnrankedScalarDynamicBroadcastBinaryOp chlo_broadcast_add
                [Arg 0 scalar_f32, Arg 1 unranked_f32] = success v2
         \<and> (opName chlo_broadcast_add, getAttrs chlo_broadcast_add) \<in> set (created_ops v2)
         \<and> set (created_ops v2)
             \<subseteq> insert (opName chlo_broadcast_add, getAttrs chlo_broadcast_add)
                  (operand_ops [Arg 0 scalar_f32, Arg 1 unranked_f32]))
   \<and> (\<exists>v3. ConvertUnrankedDynamicBroadcastNaryOp ''mhlo.add'' chlo_broadcast_add
                binary_operands = success v3
         \<and> (opName chlo_broadcast_add, getAttrs chlo_broadcast_add) \<in> set (created_ops v3)
         \<and> set (created_ops v3)
             \<subseteq> insert (opName chlo_broadcast_add, getAttrs chlo_broadcast_add)
                  (operand_ops binary_operands))
   \<and> binary_operands \<noteq> []
   \<and> list_all (\<lambda>b. (opName chlo_broadcast_add, getAttrs chlo_broadcast_add)
                     \<in> set (created_ops_region (snd b))
                   \<and> set (created_ops_region (snd b))
                       \<subseteq> insert (opName chlo_broadcast_add, getAttrs chlo_broadcast_add)
                            (operand_ops binary_operands))
        (ladder_branches_of (HandleBroadcastAndOp chlo_broadcast_add binary_operands))
   \<and> operand_ops binary_operands = {}"
proof -
  obtain v1 where v1: "ElementwiseOpConversion chlo_broadcast_add = success v1"
    by (simp add: ElementwiseOpConversion_def chlo_broadcast_add_def unranked_f32_def Let_def)
  obtain v2 where v2: "ConvertUnrankedScalarDynamicBroadcastBinaryOp chlo_broadcast_add
                [Arg 0 scalar_f32, Arg 1 unranked_f32] = success v2"
    by (simp add: lhs_is_scalar_def rhs_is_scalar_def scalar_f32_def unranked_f32_def Let_def)
  have tens: "\<not> list_ex (\<lambda>operand. \<not> isa_TensorType (getType operand)) binary_operands"
    by (simp add: binary_operands_def unranked_f32_def)
  have unr: "list_ex (\<lambda>operand. isa_UnrankedTensorType (getType operand)) binary_operands"
    by (simp add: binary_operands_def unranked_f32_def)
  have two: "2 \<le> length binary_operands" by (simp add: binary_operands_def)
  obtain v3 where v3: "ConvertUnrankedDynamicBroadcastNaryOp ''mhlo.add'' chlo_broadcast_add
                binary_operands = success v3"
    using nary_success [OF tens unr two] by blast
  have ne: "binary_operands \<noteq> []" by (simp add: binary_operands_def)
  have e: "operand_ops binary_operands = {}"
    by (simp add: operand_ops_def binary_operands_def)
  note t = created_ops_carry_attributes
             [of chlo_broadcast_add v1 "[Arg 0 scalar_f32, Arg 1 unranked_f32]" v2]
  note u = created_ops_carry_attributes
             [of chlo_broadcast_add v1 binary_operands v2 "''mhlo.add''" v3]
  from t v1 have a: "\<exists>v1. ElementwiseOpConversion chlo_broadcast_add = success v1
         \<and> (opName chlo_broadcast_add, getAttrs chlo_broadcast_add) \<in> set (created_ops v1)
         \<and> set (created_ops v1)
             \<subseteq> insert (opName chlo_broadcast_add, getAttrs chlo_broadcast_add)
                  (operand_ops (getOperands chlo_broadcast_add))"
    by blast
  from t v2 have b: "\<exists>v2. ConvertUnrankedScalarDynamicBroadcastBinaryOp chlo_broadcast_add
                [Arg 0 scalar_f32, Arg 1 unranked_f32] = success v2
         \<and> (opName chlo_broadcast_add, getAttrs chlo_broadcast_add) \<in> set (created_ops v2)
         \<and> set (created_ops v2)
             \<subseteq> insert (opName chlo_broadcast_add, getAttrs chlo_broadcast_add)
                  (operand_ops [Arg 0 scalar_f32, Arg 1 unranked_f32])"
    by blast
  from u v3 have c: "\<exists>v3. ConvertUnrankedDynamicBroadcastNaryOp ''mhlo.add'' chlo_broadcast_add
                binary_operands = success v3
         \<and> (opName chlo_broadcast_add, getAttrs chlo_broadcast_add) \<in> set (created_ops v3)
         \<and> set (created_ops v3)
             \<subseteq> insert (opName chlo_broadcast_add, getAttrs chlo_broadcast_add)
                  (operand_ops binary_operands)"
    by blast
  from u ne have d: "list_all (\<lambda>b. (opName chlo_broadcast_add, getAttrs chlo_broadcast_add)
                     \<in> set (created_ops_region (snd b))
                   \<and> set (created_ops_region (snd b))
                       \<subseteq> insert (opName chlo_broadcast_add, getAttrs chlo_broadcast_add)
                            (operand_ops binary_operands))
        (ladder_branches_of (HandleBroadcastAndOp chlo_broadcast_add binary_operands))"
    by blast
  from a b c ne d e show ?thesis by (intro conjI)
qed

end
